theory Spec2Isabelle
  imports Main "HOL-Library.Sublist"
begin

section \<open>Text\<close>

text \<open>
  A Python \<open>str\<close> is modelled by its UTF-8 encoding, a \<open>string\<close> of bytes: concatenation
  of texts is concatenation of the encodings, and one text occurs inside another exactly
  when its encoding occurs inside the other's. The literals of \<open>main.py\<close> that are not
  ASCII are written out byte by byte.
\<close>

definition digit_char :: "nat \<Rightarrow> char" where
  "digit_char d = char_of (48 + d)"

text \<open>\<open>str(n)\<close> for a non-negative Python int: its decimal digits.\<close>

fun str_nat :: "nat \<Rightarrow> string" where
  "str_nat n = (if n < 10 then [digit_char n] else str_nat (n div 10) @ [digit_char (n mod 10)])"

declare str_nat.simps [simp del]

text \<open>\<open>"\<dots>: "\<close> prefix of the per-file notification, line 35.\<close>
definition msg_processing :: string where
  "msg_processing =
     [CHR 0xE6, CHR 0xAD, CHR 0xA3, CHR 0xE5, CHR 0x9C, CHR 0xA8,
      CHR 0xE5, CHR 0xA4, CHR 0x84, CHR 0xE7, CHR 0x90, CHR 0x86] @ '': ''"

text \<open>Prefix of the Java progress notification, line 64.\<close>
definition msg_java_progress :: string where
  "msg_java_progress =
     [CHR 0xE7, CHR 0x94, CHR 0x9F, CHR 0xE6, CHR 0x88, CHR 0x90] @ ''Java''
     @ [CHR 0xE4, CHR 0xBB, CHR 0xA3, CHR 0xE7, CHR 0xA0, CHR 0x81] @ '': ''"

text \<open>Prefix of the Java failure message, line 67.\<close>
definition msg_java_failed :: string where
  "msg_java_failed =
     ''Java'' @ [CHR 0xE7, CHR 0x94, CHR 0x9F, CHR 0xE6, CHR 0x88, CHR 0x90,
                 CHR 0xE5, CHR 0xA4, CHR 0xB1, CHR 0xE8, CHR 0xB4, CHR 0xA5] @ '': ''"

text \<open>Prefix of the Python + gRPC progress notification, line 77.\<close>
definition msg_grpc_progress :: string where
  "msg_grpc_progress =
     [CHR 0xE7, CHR 0x94, CHR 0x9F, CHR 0xE6, CHR 0x88, CHR 0x90] @ ''Python + gRPC''
     @ [CHR 0xE4, CHR 0xBB, CHR 0xA3, CHR 0xE7, CHR 0xA0, CHR 0x81] @ '': ''"

text \<open>Prefix of the Python progress notification, line 81.\<close>
definition msg_python_progress :: string where
  "msg_python_progress =
     [CHR 0xE7, CHR 0x94, CHR 0x9F, CHR 0xE6, CHR 0x88, CHR 0x90] @ ''Python''
     @ [CHR 0xE4, CHR 0xBB, CHR 0xA3, CHR 0xE7, CHR 0xA0, CHR 0x81] @ '': ''"

text \<open>The success message of line 89, around the count.\<close>
definition msg_success :: "nat \<Rightarrow> string" where
  "msg_success success_count =
     [CHR 0xE6, CHR 0x88, CHR 0x90, CHR 0xE5, CHR 0x8A, CHR 0x9F,
      CHR 0xE5, CHR 0xA4, CHR 0x84, CHR 0xE7, CHR 0x90, CHR 0x86] @ '' ''
     @ str_nat success_count
     @ '' '' @ [CHR 0xE4, CHR 0xB8, CHR 0xAA, CHR 0xE6, CHR 0x96, CHR 0x87,
                CHR 0xE4, CHR 0xBB, CHR 0xB6]"

text \<open>Prefix of the message of the outer handler, line 92.\<close>
definition msg_run_error :: string where
  "msg_run_error =
     [CHR 0xE5, CHR 0xA4, CHR 0x84, CHR 0xE7, CHR 0x90, CHR 0x86,
      CHR 0xE8, CHR 0xBF, CHR 0x87, CHR 0xE7, CHR 0xA8, CHR 0x8B,
      CHR 0xE4, CHR 0xB8, CHR 0xAD, CHR 0xE5, CHR 0x87, CHR 0xBA,
      CHR 0xE9, CHR 0x94, CHR 0x99] @ '': ''"

text \<open>Prefixes of the messages of lines 108 and 114.\<close>
definition msg_grpc_failed :: string where
  "msg_grpc_failed =
     ''Python gRPC'' @ [CHR 0xE7, CHR 0x94, CHR 0x9F, CHR 0xE6, CHR 0x88, CHR 0x90,
                        CHR 0xE5, CHR 0xA4, CHR 0xB1, CHR 0xE8, CHR 0xB4, CHR 0xA5] @ '': ''"

definition msg_grpc_error :: string where
  "msg_grpc_error =
     ''Python gRPC'' @ [CHR 0xE7, CHR 0x94, CHR 0x9F, CHR 0xE6, CHR 0x88, CHR 0x90,
                        CHR 0xE5, CHR 0x87, CHR 0xBA, CHR 0xE9, CHR 0x94, CHR 0x99] @ '': ''"

text \<open>Prefixes of the messages of lines 130 and 136.\<close>
definition msg_python_failed :: string where
  "msg_python_failed =
     ''Python'' @ [CHR 0xE7, CHR 0x94, CHR 0x9F, CHR 0xE6, CHR 0x88, CHR 0x90,
                   CHR 0xE5, CHR 0xA4, CHR 0xB1, CHR 0xE8, CHR 0xB4, CHR 0xA5] @ '': ''"

definition msg_python_error :: string where
  "msg_python_error =
     ''Python'' @ [CHR 0xE7, CHR 0x94, CHR 0x9F, CHR 0xE6, CHR 0x88, CHR 0x90,
                   CHR 0xE5, CHR 0x87, CHR 0xBA, CHR 0xE9, CHR 0x94, CHR 0x99] @ '': ''"

section \<open>Paths\<close>

text \<open>
  \<open>os.path\<close> belongs to the Python standard library; the functions below are its POSIX
  forms (\<open>posixpath.basename\<close>, \<open>dirname\<close> and \<open>join\<close>), the separator being \<open>/\<close>.
\<close>

definition sep :: char where
  "sep = CHR ''/''"

text \<open>\<open>p[i:]\<close> with \<open>i = p.rfind(sep) + 1\<close>.\<close>
definition basename :: "string \<Rightarrow> string" where
  "basename p = rev (takeWhile (\<lambda>c. c \<noteq> sep) (rev p))"

text \<open>\<open>p[:i]\<close> with \<open>i = p.rfind(sep) + 1\<close>.\<close>
definition path_head :: "string \<Rightarrow> string" where
  "path_head p = rev (dropWhile (\<lambda>c. c \<noteq> sep) (rev p))"

text \<open>\<open>head.rstrip(sep)\<close>.\<close>
definition rstrip_sep :: "string \<Rightarrow> string" where
  "rstrip_sep h = rev (dropWhile (\<lambda>c. c = sep) (rev h))"

definition dirname :: "string \<Rightarrow> string" where
  "dirname p =
     (let head = path_head p
      in if head \<noteq> [] \<and> head \<noteq> replicate (length head) sep then rstrip_sep head else head)"

text \<open>\<open>os.path.join(a, b)\<close> for two components.\<close>
definition path_join :: "string \<Rightarrow> string \<Rightarrow> string" where
  "path_join a b =
     (if b \<noteq> [] \<and> hd b = sep then b
      else if a = [] \<or> last a = sep then a @ b
      else a @ [sep] @ b)"

section \<open>The worker and its surroundings\<close>

text \<open>The fields set by \<open>ProtocWorker.__init__\<close>, lines 21 to 27.\<close>

record protoc_worker =
  proto_files :: "string list"
  output_dir :: string
  generate_java :: bool
  generate_python :: bool
  generate_python_grpc :: bool
  protoc_path :: string
  include_paths :: "string list"

text \<open>
  The constructor: \<open>protoc_path\<close> defaults to \<open>"protoc"\<close>, and \<open>include_paths or []\<close>
  turns a missing list into the empty one.
\<close>

definition ProtocWorker_init ::
  "string list \<Rightarrow> string \<Rightarrow> bool \<Rightarrow> bool \<Rightarrow> bool \<Rightarrow> string option \<Rightarrow> string list option
     \<Rightarrow> protoc_worker" where
  "ProtocWorker_init files out java python grpc protoc incl =
     \<lparr>proto_files = files, output_dir = out, generate_java = java, generate_python = python,
      generate_python_grpc = grpc,
      protoc_path = (case protoc of None \<Rightarrow> ''protoc'' | Some p \<Rightarrow> p),
      include_paths = (case incl of None \<Rightarrow> [] | Some ps \<Rightarrow> ps)\<rparr>"

text \<open>
  What \<open>subprocess.run(\<dots>, capture_output=True, text=True)\<close> returns, as far as
  it is read.
\<close>

record completed_process =
  returncode :: int
  stderr :: string

text \<open>
  The operating system, as the worker meets it. A call may raise: \<open>makedirs\<close> answers
  \<open>Some text\<close> and \<open>subprocess_run\<close> answers \<open>Inl text\<close> then, \<open>text\<close> being \<open>str(e)\<close> of
  the exception. Both read and change a world \<open>'w\<close> that the model threads through the
  calls in program order, so the same command may fare differently at different times.
\<close>

record 'w os_env =
  sys_executable :: string
  makedirs :: "string \<Rightarrow> 'w \<Rightarrow> string option \<times> 'w"
  subprocess_run :: "string list \<Rightarrow> 'w \<Rightarrow> (string + completed_process) \<times> 'w"

text \<open>
  What a run does, in program order: the two signals of the worker, and the calls to the
  operating system with what they answered.
\<close>

datatype event =
    Progress string
  | Finished bool string
  | MkDir string "string option"
  | Spawn "string list" "string + completed_process"

text \<open>
  How a block of statements ends: falls through, executes \<open>return\<close>, or raises.
\<close>

datatype flow = Next | Return | Raise string

section \<open>\<open>ProtocWorker.run\<close>\<close>

definition proto_path_arg :: "string \<Rightarrow> string" where
  "proto_path_arg p = ''--proto_path='' @ p"

text \<open>Lines 38 to 51: the include arguments of one file.\<close>

definition include_args :: "protoc_worker \<Rightarrow> string \<Rightarrow> string list" where
  "include_args w proto_file =
     (let proto_dir = dirname proto_file;
          args = (if proto_dir \<noteq> [] then [proto_path_arg proto_dir] else [])
                 @ map proto_path_arg (include_paths w)
      in if args = [] then [proto_path_arg ''.''] else args)"

text \<open>Lines 94 to 115.\<close>

definition grpc_cmd :: "'w os_env \<Rightarrow> string \<Rightarrow> string \<Rightarrow> string list \<Rightarrow> string list" where
  "grpc_cmd env proto_file out incl =
     [sys_executable env, ''-m'', ''grpc_tools.protoc'',
      ''--python_out='' @ out, ''--grpc_python_out='' @ out] @ incl @ [proto_file]"

definition generate_python_with_grpc ::
  "'w os_env \<Rightarrow> string \<Rightarrow> string \<Rightarrow> string list \<Rightarrow> 'w \<Rightarrow> bool \<times> event list \<times> 'w" where
  "generate_python_with_grpc env proto_file out incl s =
     (let cmd = grpc_cmd env proto_file out incl
      in case subprocess_run env cmd s of
           (Inl e, s') \<Rightarrow>
             (False, [Spawn cmd (Inl e), Finished False (msg_grpc_error @ e)], s')
         | (Inr result, s') \<Rightarrow>
             if returncode result \<noteq> 0
             then (False, [Spawn cmd (Inr result),
                           Finished False (msg_grpc_failed @ stderr result)], s')
             else (True, [Spawn cmd (Inr result)], s'))"

text \<open>Lines 117 to 137.\<close>

definition python_cmd :: "'w os_env \<Rightarrow> string \<Rightarrow> string \<Rightarrow> string list \<Rightarrow> string list" where
  "python_cmd env proto_file out incl =
     [sys_executable env, ''-m'', ''grpc_tools.protoc'', ''--python_out='' @ out]
     @ incl @ [proto_file]"

definition generate_python_only ::
  "'w os_env \<Rightarrow> string \<Rightarrow> string \<Rightarrow> string list \<Rightarrow> 'w \<Rightarrow> bool \<times> event list \<times> 'w" where
  "generate_python_only env proto_file out incl s =
     (let cmd = python_cmd env proto_file out incl
      in case subprocess_run env cmd s of
           (Inl e, s') \<Rightarrow>
             (False, [Spawn cmd (Inl e), Finished False (msg_python_error @ e)], s')
         | (Inr result, s') \<Rightarrow>
             if returncode result \<noteq> 0
             then (False, [Spawn cmd (Inr result),
                           Finished False (msg_python_failed @ stderr result)], s')
             else (True, [Spawn cmd (Inr result)], s'))"

text \<open>Lines 53 to 68: the Java block of the loop body.\<close>

definition java_cmd :: "protoc_worker \<Rightarrow> string \<Rightarrow> string \<Rightarrow> string list \<Rightarrow> string list" where
  "java_cmd w proto_file java_output incl =
     [protoc_path w, ''--java_out='' @ java_output] @ incl @ [proto_file]"

definition java_block ::
  "'w os_env \<Rightarrow> protoc_worker \<Rightarrow> string \<Rightarrow> string list \<Rightarrow> 'w \<Rightarrow> flow \<times> event list \<times> 'w" where
  "java_block env w proto_file incl s =
     (if generate_java w then
        (let java_output = path_join (output_dir w) ''java''
         in case makedirs env java_output s of
              (Some e, s1) \<Rightarrow> (Raise e, [MkDir java_output (Some e)], s1)
            | (None, s1) \<Rightarrow>
                (let cmd = java_cmd w proto_file java_output incl;
                     pre = [MkDir java_output None,
                            Progress (msg_java_progress @ basename proto_file)]
                 in case subprocess_run env cmd s1 of
                      (Inl e, s2) \<Rightarrow> (Raise e, pre @ [Spawn cmd (Inl e)], s2)
                    | (Inr result, s2) \<Rightarrow>
                        if returncode result \<noteq> 0
                        then (Return, pre @ [Spawn cmd (Inr result),
                                Finished False (msg_java_failed @ stderr result)], s2)
                        else (Next, pre @ [Spawn cmd (Inr result)], s2)))
      else (Next, [], s))"

text \<open>Lines 70 to 85: the Python block of the loop body.\<close>

definition python_block ::
  "'w os_env \<Rightarrow> protoc_worker \<Rightarrow> string \<Rightarrow> string list \<Rightarrow> 'w \<Rightarrow> flow \<times> event list \<times> 'w" where
  "python_block env w proto_file incl s =
     (if generate_python w \<or> generate_python_grpc w then
        (let python_output = path_join (output_dir w) ''python''
         in case makedirs env python_output s of
              (Some e, s1) \<Rightarrow> (Raise e, [MkDir python_output (Some e)], s1)
            | (None, s1) \<Rightarrow>
                (if generate_python_grpc w then
                   (case generate_python_with_grpc env proto_file python_output incl s1 of
                      (success, evs, s2) \<Rightarrow>
                        (if \<not> success then Return else Next,
                         [MkDir python_output None,
                          Progress (msg_grpc_progress @ basename proto_file)] @ evs, s2))
                 else
                   (case generate_python_only env proto_file python_output incl s1 of
                      (success, evs, s2) \<Rightarrow>
                        (if \<not> success then Return else Next,
                         [MkDir python_output None,
                          Progress (msg_python_progress @ basename proto_file)] @ evs, s2))))
      else (Next, [], s))"

text \<open>
  The notification of line 35, for the file at index \<open>i\<close> of
  \<open>total_files\<close>.
\<close>

definition processing_msg :: "string \<Rightarrow> nat \<Rightarrow> nat \<Rightarrow> string" where
  "processing_msg proto_file i total_files =
     msg_processing @ basename proto_file
     @ '' ('' @ str_nat (i + 1) @ ''/'' @ str_nat total_files @ '')''"

text \<open>Lines 35 to 85: one pass through the body of the loop.\<close>

definition loop_body ::
  "'w os_env \<Rightarrow> protoc_worker \<Rightarrow> nat \<Rightarrow> nat \<Rightarrow> string \<Rightarrow> 'w \<Rightarrow> flow \<times> event list \<times> 'w" where
  "loop_body env w total_files i proto_file s =
     (let incl = include_args w proto_file;
          start = [Progress (processing_msg proto_file i total_files)]
      in case java_block env w proto_file incl s of
           (Next, evs1, s1) \<Rightarrow>
             (case python_block env w proto_file incl s1 of
                (fl, evs2, s2) \<Rightarrow> (fl, start @ evs1 @ evs2, s2))
         | (fl, evs1, s1) \<Rightarrow> (fl, start @ evs1, s1))"

text \<open>
  Lines 34 to 87: the loop over \<open>enumerate(self.proto_files)\<close>, from index \<open>i\<close> with
  \<open>success_count\<close> files done. It answers how the loop ended and the final count.
\<close>

fun run_loop ::
  "'w os_env \<Rightarrow> protoc_worker \<Rightarrow> nat \<Rightarrow> nat \<Rightarrow> nat \<Rightarrow> string list \<Rightarrow> 'w
     \<Rightarrow> (flow \<times> nat) \<times> event list \<times> 'w" where
  "run_loop env w total_files i success_count [] s = ((Next, success_count), [], s)"
| "run_loop env w total_files i success_count (proto_file # rest) s =
     (case loop_body env w total_files i proto_file s of
        (Next, evs, s1) \<Rightarrow>
          (case run_loop env w total_files (i + 1) (success_count + 1) rest s1 of
             (r, evs', s2) \<Rightarrow> (r, evs @ evs', s2))
      | (fl, evs, s1) \<Rightarrow> ((fl, success_count), evs, s1))"

text \<open>Lines 29 to 92: the whole of \<open>run\<close>, with the handler of line 91.\<close>

definition run :: "'w os_env \<Rightarrow> protoc_worker \<Rightarrow> 'w \<Rightarrow> event list \<times> 'w" where
  "run env w s =
     (case run_loop env w (length (proto_files w)) 0 0 (proto_files w) s of
        ((Next, success_count), evs, s1) \<Rightarrow>
          (evs @ [Finished True (msg_success success_count)], s1)
      | ((Return, success_count), evs, s1) \<Rightarrow> (evs, s1)
      | ((Raise e, success_count), evs, s1) \<Rightarrow>
          (evs @ [Finished False (msg_run_error @ e)], s1))"

section \<open>Reading a trace\<close>

fun is_progress :: "event \<Rightarrow> bool" where
  "is_progress (Progress m) = True"
| "is_progress e = False"

fun is_finished :: "event \<Rightarrow> bool" where
  "is_finished (Finished ok m) = True"
| "is_finished e = False"

text \<open>The notifications of a trace: what the caller of the worker receives.\<close>

definition notifications :: "event list \<Rightarrow> event list" where
  "notifications evs = filter (\<lambda>e. is_progress e \<or> is_finished e) evs"

text \<open>
  A call to the operating system that raised, or a subprocess that exited non-zero.
\<close>

fun is_failure :: "event \<Rightarrow> bool" where
  "is_failure (MkDir p (Some e)) = True"
| "is_failure (Spawn cmd (Inl e)) = True"
| "is_failure (Spawn cmd (Inr result)) = (returncode result \<noteq> 0)"
| "is_failure e = False"

text \<open>The per-file notification of line 35 is told from the others by its prefix.\<close>

fun is_position :: "event \<Rightarrow> bool" where
  "is_position (Progress m) = prefix msg_processing m"
| "is_position e = False"

text \<open>The progress notifications of one file whose targets all succeed.\<close>

definition file_notifications :: "protoc_worker \<Rightarrow> nat \<Rightarrow> nat \<times> string \<Rightarrow> event list" where
  "file_notifications w total_files p =
     (case p of (i, proto_file) \<Rightarrow>
        [Progress (processing_msg proto_file i total_files)]
        @ (if generate_java w then [Progress (msg_java_progress @ basename proto_file)] else [])
        @ (if generate_python_grpc w then [Progress (msg_grpc_progress @ basename proto_file)]
           else if generate_python w then [Progress (msg_python_progress @ basename proto_file)]
           else []))"

text \<open>
  The commands of a trace that went to the code-generation toolchain: those that start with
  the interpreter, \<open>-m\<close> and the module \<open>grpc_tools.protoc\<close>.
\<close>

fun toolchain_cmds :: "'w os_env \<Rightarrow> event list \<Rightarrow> string list list" where
  "toolchain_cmds env [] = []"
| "toolchain_cmds env (Spawn cmd r # evs) =
     (if take 3 cmd = [sys_executable env, ''-m'', ''grpc_tools.protoc'']
      then cmd # toolchain_cmds env evs else toolchain_cmds env evs)"
| "toolchain_cmds env (e # evs) = toolchain_cmds env evs"

section \<open>Sample surroundings\<close>

definition ok_result :: completed_process where
  "ok_result = \<lparr>returncode = 0, stderr = []\<rparr>"

definition boom_result :: completed_process where
  "boom_result = \<lparr>returncode = 1, stderr = ''boom''\<rparr>"

text \<open>Every directory can be made and every subprocess exits with 0.\<close>

definition env_ok :: "unit os_env" where
  "env_ok = \<lparr>sys_executable = ''python3'',
             makedirs = (\<lambda>p s. (None, s)),
             subprocess_run = (\<lambda>cmd s. (Inr ok_result, s))\<rparr>"

text \<open>
  The world counts the subprocesses so far; the one numbered \<open>k\<close> exits with 1.
\<close>

definition env_fail_nth :: "nat \<Rightarrow> nat os_env" where
  "env_fail_nth k = \<lparr>sys_executable = ''python3'',
             makedirs = (\<lambda>p s. (None, s)),
             subprocess_run = (\<lambda>cmd s. (Inr (if s = k then boom_result else ok_result), s + 1))\<rparr>"

text \<open>No subprocess can be spawned.\<close>

definition env_no_spawn :: "unit os_env" where
  "env_no_spawn = \<lparr>sys_executable = ''python3'',
             makedirs = (\<lambda>p s. (None, s)),
             subprocess_run = (\<lambda>cmd s. (Inl ''No such file or directory'', s))\<rparr>"

definition worker_java :: "string list \<Rightarrow> protoc_worker" where
  "worker_java files = ProtocWorker_init files ''out'' True False False None None"

definition worker_grpc :: "string list \<Rightarrow> protoc_worker" where
  "worker_grpc files = ProtocWorker_init files ''out'' False True True None (Some [''A'', ''B''])"

definition three_files :: "string list" where
  "three_files = [''/src/a.proto'', ''b.proto'', ''c.proto'']"

text \<open>The Java command of the second of the three files.\<close>

definition java_cmd_b :: "string list" where
  "java_cmd_b = [''protoc'', ''--java_out=out/java'', ''--proto_path=.'', ''b.proto'']"

text \<open>
  The toolchain command of the first of the three files, for \<open>worker_grpc\<close>.
\<close>

definition grpc_cmd_a :: "string list" where
  "grpc_cmd_a = [''python3'', ''-m'', ''grpc_tools.protoc'', ''--python_out=out/python'',
     ''--grpc_python_out=out/python'', ''--proto_path=/src'', ''--proto_path=A'',
     ''--proto_path=B'', ''/src/a.proto'']"

section \<open>Invariants of a run\<close>

text \<open>
  The message prefix that goes with a command of file \<open>f\<close> that exited non-zero
  (lines 67, 108, 130).
\<close>

definition exit_label :: "'w os_env \<Rightarrow> protoc_worker \<Rightarrow> string \<Rightarrow> string list \<Rightarrow> string \<Rightarrow> bool" where
  "exit_label env w f cmd label \<longleftrightarrow>
     (cmd = java_cmd w f (path_join (output_dir w) ''java'') (include_args w f)
        \<and> label = msg_java_failed) \<or>
     (cmd = grpc_cmd env f (path_join (output_dir w) ''python'') (include_args w f)
        \<and> label = msg_grpc_failed) \<or>
     (cmd = python_cmd env f (path_join (output_dir w) ''python'') (include_args w f)
        \<and> label = msg_python_failed)"

text \<open>
  The message prefix that goes with a command of file \<open>f\<close> that could not be run
  (lines 92, 114, 136).
\<close>

definition fault_label :: "'w os_env \<Rightarrow> protoc_worker \<Rightarrow> string \<Rightarrow> string list \<Rightarrow> string \<Rightarrow> bool" where
  "fault_label env w f cmd label \<longleftrightarrow>
     (cmd = java_cmd w f (path_join (output_dir w) ''java'') (include_args w f)
        \<and> label = msg_run_error) \<or>
     (cmd = grpc_cmd env f (path_join (output_dir w) ''python'') (include_args w f)
        \<and> label = msg_grpc_error) \<or>
     (cmd = python_cmd env f (path_join (output_dir w) ''python'') (include_args w f)
        \<and> label = msg_python_error)"

text \<open>
  What the handler of lines 91 and 92 adds to the events of the \<open>try\<close> block.
\<close>

definition handled :: "flow \<Rightarrow> event list \<Rightarrow> event list" where
  "handled fl evs = (case fl of Raise e \<Rightarrow> evs @ [Finished False (msg_run_error @ e)] | _ \<Rightarrow> evs)"

text \<open>No failure and no terminal notification so far.\<close>

definition clean :: "event list \<Rightarrow> bool" where
  "clean evs \<longleftrightarrow> filter is_failure evs = [] \<and> filter is_finished evs = []"

text \<open>
  The two events that end a stopped run: the failing call of file \<open>f\<close> and the
  terminal notification for it.
\<close>

definition stop_tail :: "'w os_env \<Rightarrow> protoc_worker \<Rightarrow> string \<Rightarrow> event list \<Rightarrow> bool" where
  "stop_tail env w f tail \<longleftrightarrow>
     (\<exists>p e. tail = [MkDir p (Some e), Finished False (msg_run_error @ e)]) \<or>
     (\<exists>cmd e label. fault_label env w f cmd label
         \<and> tail = [Spawn cmd (Inl e), Finished False (label @ e)]) \<or>
     (\<exists>cmd r label. returncode r \<noteq> 0 \<and> exit_label env w f cmd label
         \<and> tail = [Spawn cmd (Inr r), Finished False (label @ stderr r)])"

text \<open>The invariant of one pass through the loop body.\<close>

definition pass_ok :: "'w os_env \<Rightarrow> protoc_worker \<Rightarrow> string \<Rightarrow> flow \<Rightarrow> event list \<Rightarrow> bool" where
  "pass_ok env w f fl evs \<longleftrightarrow>
     (fl = Next \<and> clean evs) \<or>
     (fl \<noteq> Next \<and> (\<exists>pre tail. handled fl evs = pre @ tail \<and> clean pre \<and> stop_tail env w f tail))"

text \<open>The invariant of the loop.\<close>

definition loop_ok :: "'w os_env \<Rightarrow> protoc_worker \<Rightarrow> string list \<Rightarrow> flow \<Rightarrow> event list \<Rightarrow> bool" where
  "loop_ok env w files fl evs \<longleftrightarrow>
     (fl = Next \<and> clean evs) \<or>
     (fl \<noteq> Next \<and> (\<exists>pre tail f. handled fl evs = pre @ tail \<and> clean pre \<and> f \<in> set files
         \<and> stop_tail env w f tail))"

text \<open>The two shapes of a trace of \<open>run\<close>.\<close>

definition run_shape :: "'w os_env \<Rightarrow> protoc_worker \<Rightarrow> event list \<Rightarrow> bool" where
  "run_shape env w evs \<longleftrightarrow>
     (\<exists>pre. clean pre \<and> evs = pre @ [Finished True (msg_success (length (proto_files w)))]) \<or>
     (\<exists>pre tail f. clean pre \<and> f \<in> set (proto_files w) \<and> stop_tail env w f tail \<and> evs = pre @ tail)"

section \<open>Commands, positions and the window\<close>

text \<open>The three commands that the loop body can build for a file.\<close>

definition file_cmds :: "'w os_env \<Rightarrow> protoc_worker \<Rightarrow> string \<Rightarrow> string list list" where
  "file_cmds env w f =
     [java_cmd w f (path_join (output_dir w) ''java'') (include_args w f),
      grpc_cmd env f (path_join (output_dir w) ''python'') (include_args w f),
      python_cmd env f (path_join (output_dir w) ''python'') (include_args w f)]"

text \<open>
  The toolchain command for a file when the RPC output is asked for: one command with both
  \<open>--python_out\<close> and \<open>--grpc_python_out\<close>.
\<close>

definition grpc_cmd_of :: "'w os_env \<Rightarrow> protoc_worker \<Rightarrow> string \<Rightarrow> string list" where
  "grpc_cmd_of env w f =
     [sys_executable env, ''-m'', ''grpc_tools.protoc'',
      ''--python_out='' @ path_join (output_dir w) ''python'',
      ''--grpc_python_out='' @ path_join (output_dir w) ''python'']
     @ include_args w f @ [f]"

text \<open>The per-file notification of the file at index \<open>i\<close>.\<close>

definition position_of :: "nat \<Rightarrow> nat \<times> string \<Rightarrow> event" where
  "position_of total_files p = (case p of (i, proto_file) \<Rightarrow>
      Progress (processing_msg proto_file i total_files))"

text \<open>
  The value of \<open>success_count\<close> when the loop is left: the number of files whose targets
  all succeeded.
\<close>

definition final_success_count :: "'w os_env \<Rightarrow> protoc_worker \<Rightarrow> 'w \<Rightarrow> nat" where
  "final_success_count env w s =
     snd (fst (run_loop env w (length (proto_files w)) 0 0 (proto_files w) s))"

text \<open>What \<open>start_conversion\<close> reads from the window.\<close>

record gui_state =
  gui_proto_files :: "string list"
  gui_include_paths :: "string list"
  output_dir_text :: string
  java_checked :: bool
  python_checked :: bool
  python_grpc_checked :: bool
  python_interpreter_text :: string
  protoc_path_text :: string

text \<open>
  What \<open>start_conversion\<close> does, in program order: message boxes, the probe for
  \<open>grpc_tools\<close>, the call of \<open>install_grpcio_tools\<close>, the making of the output directory,
  the changes of lines 620 to 623 to the buttons and the progress bar, the log line, and
  the start of the worker thread.
\<close>

datatype gui_event =
    Warning string string
  | Question string string bool
  | Probe "string list" "string + completed_process"
  | InstallGrpcioTools
  | MakeOutputDir string "string option"
  | UiRunning
  | LogMessage string
  | WorkerStart protoc_worker

text \<open>
  The surroundings of the window: the operating system, the answer of the user to a
  question box (\<open>True\<close> for Yes), and what \<open>install_grpcio_tools\<close> (lines 452 to 479)
  does to the world.
\<close>

record 'w gui_env = "'w os_env" +
  question :: "string \<Rightarrow> string \<Rightarrow> 'w \<Rightarrow> bool \<times> 'w"
  install_grpcio_tools :: "'w \<Rightarrow> 'w"

definition msg_error_title :: string where
  "msg_error_title = [CHR 0xE9, CHR 0x94, CHR 0x99, CHR 0xE8, CHR 0xAF, CHR 0xAF]"

text \<open>The three warnings of lines 565, 570 and 578.\<close>

definition msg_no_files :: string where
  "msg_no_files =
     [CHR 0xE8, CHR 0xAF, CHR 0xB7, CHR 0xE9, CHR 0x80, CHR 0x89, CHR 0xE6, CHR 0x8B, CHR 0xA9,
      CHR 0xE8, CHR 0x87, CHR 0xB3, CHR 0xE5, CHR 0xB0, CHR 0x91, CHR 0xE4, CHR 0xB8, CHR 0x80,
      CHR 0xE4, CHR 0xB8, CHR 0xAA] @ ''Proto''
     @ [CHR 0xE6, CHR 0x96, CHR 0x87, CHR 0xE4, CHR 0xBB, CHR 0xB6]"

definition msg_no_output :: string where
  "msg_no_output =
     [CHR 0xE8, CHR 0xAF, CHR 0xB7, CHR 0xE9, CHR 0x80, CHR 0x89, CHR 0xE6, CHR 0x8B, CHR 0xA9,
      CHR 0xE8, CHR 0xBE, CHR 0x93, CHR 0xE5, CHR 0x87, CHR 0xBA, CHR 0xE7, CHR 0x9B, CHR 0xAE,
      CHR 0xE5, CHR 0xBD, CHR 0x95]"

definition msg_no_target :: string where
  "msg_no_target =
     [CHR 0xE8, CHR 0xAF, CHR 0xB7, CHR 0xE8, CHR 0x87, CHR 0xB3, CHR 0xE5, CHR 0xB0, CHR 0x91,
      CHR 0xE9, CHR 0x80, CHR 0x89, CHR 0xE6, CHR 0x8B, CHR 0xA9, CHR 0xE4, CHR 0xB8, CHR 0x80,
      CHR 0xE7, CHR 0xA7, CHR 0x8D, CHR 0xE7, CHR 0x94, CHR 0x9F, CHR 0xE6, CHR 0x88, CHR 0x90,
      CHR 0xE9, CHR 0x80, CHR 0x89, CHR 0xE9, CHR 0xA1, CHR 0xB9]"

text \<open>Title and text of the question of lines 588 to 592.\<close>

definition msg_missing_title :: string where
  "msg_missing_title =
     [CHR 0xE7, CHR 0xBC, CHR 0xBA, CHR 0xE5, CHR 0xB0, CHR 0x91, CHR 0xE4, CHR 0xBE, CHR 0x9D,
      CHR 0xE8, CHR 0xB5, CHR 0x96]"

definition msg_missing :: string where
  "msg_missing =
     ''grpcio-tools''
     @ [CHR 0xE6, CHR 0x9C, CHR 0xAA, CHR 0xE5, CHR 0xAE, CHR 0x89, CHR 0xE8, CHR 0xA3, CHR 0x85,
        CHR 0xEF, CHR 0xBC, CHR 0x8C, CHR 0xE6, CHR 0x98, CHR 0xAF, CHR 0xE5, CHR 0x90, CHR 0xA6,
        CHR 0xE7, CHR 0x8E, CHR 0xB0, CHR 0xE5, CHR 0x9C, CHR 0xA8, CHR 0xE5, CHR 0xAE, CHR 0x89,
        CHR 0xE8, CHR 0xA3, CHR 0x85, CHR 0xEF, CHR 0xBC, CHR 0x9F]"

text \<open>The warning of line 599.\<close>

definition msg_cannot_check :: string where
  "msg_cannot_check =
     [CHR 0xE6, CHR 0x97, CHR 0xA0, CHR 0xE6, CHR 0xB3, CHR 0x95, CHR 0xE6, CHR 0xA3, CHR 0x80,
      CHR 0xE6, CHR 0x9F, CHR 0xA5] @ ''grpcio-tools''
     @ [CHR 0xE7, CHR 0x8A, CHR 0xB6, CHR 0xE6, CHR 0x80, CHR 0x81]"

text \<open>The log line of line 625.\<close>

definition msg_start :: string where
  "msg_start =
     [CHR 0xE5, CHR 0xBC, CHR 0x80, CHR 0xE5, CHR 0xA7, CHR 0x8B, CHR 0xE8, CHR 0xBD, CHR 0xAC,
      CHR 0xE6, CHR 0x8D, CHR 0xA2] @ ''...''"

text \<open>
  Lines 582 to 600: the check for \<open>grpcio-tools\<close>. The answer is \<open>False\<close> when the
  block executes \<open>return\<close>. The probe runs with a timeout of five seconds; its expiry is
  one of the exceptions of \<open>subprocess.run\<close>.
\<close>

definition check_grpcio ::
  "'w gui_env \<Rightarrow> gui_state \<Rightarrow> 'w \<Rightarrow> bool \<times> gui_event list \<times> 'w" where
  "check_grpcio env g s =
     (if python_grpc_checked g then
        (let cmd = [python_interpreter_text g, ''-c'', ''import grpc_tools.protoc'']
         in case subprocess_run env cmd s of
              (Inl e, s1) \<Rightarrow>
                (False, [Probe cmd (Inl e), Warning msg_error_title msg_cannot_check], s1)
            | (Inr result, s1) \<Rightarrow>
                if returncode result \<noteq> 0 then
                  (case question env msg_missing_title msg_missing s1 of
                     (reply, s2) \<Rightarrow>
                       if reply
                       then (False, [Probe cmd (Inr result),
                                     Question msg_missing_title msg_missing reply,
                                     InstallGrpcioTools], install_grpcio_tools env s2)
                       else (False, [Probe cmd (Inr result),
                                     Question msg_missing_title msg_missing reply], s2))
                else (True, [Probe cmd (Inr result)], s1))
      else (True, [], s))"

text \<open>
  Lines 561 to 626. The first component is the exception that leaves the method, if any:
  \<open>os.makedirs\<close> of line 603 is called outside any handler.
\<close>

definition start_conversion ::
  "'w gui_env \<Rightarrow> gui_state \<Rightarrow> 'w \<Rightarrow> string option \<times> gui_event list \<times> 'w" where
  "start_conversion env g s =
     (if gui_proto_files g = [] then (None, [Warning msg_error_title msg_no_files], s)
      else
        (let output_dir = output_dir_text g
         in if output_dir = [] then (None, [Warning msg_error_title msg_no_output], s)
            else
              (let generate_java = java_checked g;
                   generate_python = python_checked g;
                   generate_python_grpc = python_grpc_checked g
               in if \<not> generate_java \<and> \<not> generate_python \<and> \<not> generate_python_grpc
                  then (None, [Warning msg_error_title msg_no_target], s)
                  else
                    (case check_grpcio env g s of
                       (False, evs, s1) \<Rightarrow> (None, evs, s1)
                     | (True, evs, s1) \<Rightarrow>
                         (case makedirs env output_dir s1 of
                            (Some e, s2) \<Rightarrow>
                              (Some e, evs @ [MakeOutputDir output_dir (Some e)], s2)
                          | (None, s2) \<Rightarrow>
                              (None,
                               evs @ [MakeOutputDir output_dir None, UiRunning,
                                      LogMessage msg_start,
                                      WorkerStart
                                        (ProtocWorker_init (gui_proto_files g) output_dir
                                           generate_java generate_python generate_python_grpc
                                           (Some (protoc_path_text g))
                                           (Some (gui_include_paths g)))], s2))))))"

definition gui_env_ok :: "unit gui_env" where
  "gui_env_ok = \<lparr>sys_executable = ''python3'',
     makedirs = (\<lambda>p s. (None, s)),
     subprocess_run = (\<lambda>cmd s. (Inr ok_result, s)),
     question = (\<lambda>title text s. (False, s)),
     install_grpcio_tools = (\<lambda>s. s)\<rparr>"

definition gui_no_files :: gui_state where
  "gui_no_files = \<lparr>gui_proto_files = [], gui_include_paths = [], output_dir_text = ''out'',
     java_checked = True, python_checked = False, python_grpc_checked = True,
     python_interpreter_text = ''python3'', protoc_path_text = ''protoc''\<rparr>"

section \<open>Properties\<close>

subsection \<open>The shape of every trace\<close>

lemma clean_Nil [simp]: "clean []" by (simp add: clean_def)
lemma clean_append [simp]: "clean (xs @ ys) \<longleftrightarrow> clean xs \<and> clean ys"
  by (auto simp: clean_def)

lemma clean_Cons: "clean (e # evs) \<longleftrightarrow> \<not> is_failure e \<and> \<not> is_finished e \<and> clean evs"
  by (auto simp: clean_def)

lemma stop_tail_mkdir: "stop_tail env w f [MkDir p (Some e), Finished False (msg_run_error @ e)]"
  by (simp add: stop_tail_def)

lemma stop_tail_fault:
  "fault_label env w f cmd label \<Longrightarrow> stop_tail env w f [Spawn cmd (Inl e), Finished False (label @ e)]"
  by (simp add: stop_tail_def)

lemma stop_tail_exit:
  "returncode r \<noteq> 0 \<Longrightarrow> exit_label env w f cmd label
     \<Longrightarrow> stop_tail env w f [Spawn cmd (Inr r), Finished False (label @ stderr r)]"
  unfolding stop_tail_def by blast

lemma pass_ok_Next: "clean evs \<Longrightarrow> pass_ok env w f Next evs"
  by (simp add: pass_ok_def)

lemma pass_ok_Return:
  "clean pre \<Longrightarrow> stop_tail env w f tail \<Longrightarrow> pass_ok env w f Return (pre @ tail)"
  unfolding pass_ok_def handled_def by auto

lemma pass_ok_Raise:
  "clean pre \<Longrightarrow> stop_tail env w f [ev, Finished False (msg_run_error @ e)]
     \<Longrightarrow> pass_ok env w f (Raise e) (pre @ [ev])"
  unfolding pass_ok_def handled_def by auto

lemma java_block_ok:
  assumes "java_block env w f (include_args w f) s = (fl, evs, s')"
  shows "pass_ok env w f fl evs"
proof (cases "generate_java w")
  case False
  with assms show ?thesis by (auto simp: java_block_def intro: pass_ok_Next)
next
  case en: True
  let ?out = "path_join (output_dir w) ''java''"
  let ?cmd = "java_cmd w f ?out (include_args w f)"
  let ?pre = "[MkDir ?out None, Progress (msg_java_progress @ basename f)]"
  have cp: "clean ?pre" by (simp add: clean_def)
  obtain r s1 where mk: "makedirs env ?out s = (r, s1)" by (cases "makedirs env ?out s")
  show ?thesis
  proof (cases r)
    case (Some e)
    with assms en mk have "fl = Raise e" "evs = [] @ [MkDir ?out (Some e)]"
      by (auto simp: java_block_def Let_def)
    then show ?thesis
      using pass_ok_Raise [OF clean_Nil stop_tail_mkdir] by simp
  next
    case None
    obtain res s2 where sp: "subprocess_run env ?cmd s1 = (res, s2)"
      by (cases "subprocess_run env ?cmd s1")
    show ?thesis
    proof (cases res)
      case (Inl e)
      with assms en mk None sp have "fl = Raise e" "evs = ?pre @ [Spawn ?cmd (Inl e)]"
        by (auto simp: java_block_def Let_def)
      moreover have "fault_label env w f ?cmd msg_run_error" by (simp add: fault_label_def)
      ultimately show ?thesis
        using pass_ok_Raise [OF cp stop_tail_fault] by simp
    next
      case (Inr result)
      show ?thesis
      proof (cases "returncode result = 0")
        case True
        with assms en mk None sp Inr have "fl = Next" "evs = ?pre @ [Spawn ?cmd (Inr result)]"
          by (auto simp: java_block_def Let_def)
        with True show ?thesis by (simp add: pass_ok_def clean_def)
      next
        case False
        with assms en mk None sp Inr have "fl = Return"
          "evs = ?pre @ [Spawn ?cmd (Inr result), Finished False (msg_java_failed @ stderr result)]"
          by (auto simp: java_block_def Let_def)
        moreover have "exit_label env w f ?cmd msg_java_failed" by (simp add: exit_label_def)
        ultimately show ?thesis
          using pass_ok_Return [OF cp stop_tail_exit [OF False]] by simp
      qed
    qed
  qed
qed

lemma generate_python_with_grpc_ok:
  assumes "generate_python_with_grpc env f (path_join (output_dir w) ''python'') (include_args w f) s = (ok, evs, s')"
  shows "pass_ok env w f (if \<not> ok then Return else Next) evs"
proof -
  let ?cmd = "grpc_cmd env f (path_join (output_dir w) ''python'') (include_args w f)"
  obtain res s2 where sp: "subprocess_run env ?cmd s = (res, s2)"
    by (cases "subprocess_run env ?cmd s")
  show ?thesis
  proof (cases res)
    case (Inl e)
    with assms sp have "\<not> ok" "evs = [] @ [Spawn ?cmd (Inl e), Finished False (msg_grpc_error @ e)]"
      by (auto simp: generate_python_with_grpc_def Let_def)
    moreover have "fault_label env w f ?cmd msg_grpc_error" by (simp add: fault_label_def)
    ultimately show ?thesis
      using pass_ok_Return [OF clean_Nil stop_tail_fault] by simp
  next
    case (Inr result)
    show ?thesis
    proof (cases "returncode result = 0")
      case True
      with assms sp Inr have "ok" "evs = [Spawn ?cmd (Inr result)]"
        by (auto simp: generate_python_with_grpc_def Let_def)
      with True show ?thesis by (simp add: pass_ok_def clean_def)
    next
      case False
      with assms sp Inr have "\<not> ok"
        "evs = [] @ [Spawn ?cmd (Inr result), Finished False (msg_grpc_failed @ stderr result)]"
        by (auto simp: generate_python_with_grpc_def Let_def)
      moreover have "exit_label env w f ?cmd msg_grpc_failed" by (simp add: exit_label_def)
      ultimately show ?thesis
        using pass_ok_Return [OF clean_Nil stop_tail_exit [OF False]] by simp
    qed
  qed
qed

lemma generate_python_only_ok:
  assumes "generate_python_only env f (path_join (output_dir w) ''python'') (include_args w f) s = (ok, evs, s')"
  shows "pass_ok env w f (if \<not> ok then Return else Next) evs"
proof -
  let ?cmd = "python_cmd env f (path_join (output_dir w) ''python'') (include_args w f)"
  obtain res s2 where sp: "subprocess_run env ?cmd s = (res, s2)"
    by (cases "subprocess_run env ?cmd s")
  show ?thesis
  proof (cases res)
    case (Inl e)
    with assms sp have "\<not> ok" "evs = [] @ [Spawn ?cmd (Inl e), Finished False (msg_python_error @ e)]"
      by (auto simp: generate_python_only_def Let_def)
    moreover have "fault_label env w f ?cmd msg_python_error" by (simp add: fault_label_def)
    ultimately show ?thesis
      using pass_ok_Return [OF clean_Nil stop_tail_fault] by simp
  next
    case (Inr result)
    show ?thesis
    proof (cases "returncode result = 0")
      case True
      with assms sp Inr have "ok" "evs = [Spawn ?cmd (Inr result)]"
        by (auto simp: generate_python_only_def Let_def)
      with True show ?thesis by (simp add: pass_ok_def clean_def)
    next
      case False
      with assms sp Inr have "\<not> ok"
        "evs = [] @ [Spawn ?cmd (Inr result), Finished False (msg_python_failed @ stderr result)]"
        by (auto simp: generate_python_only_def Let_def)
      moreover have "exit_label env w f ?cmd msg_python_failed" by (simp add: exit_label_def)
      ultimately show ?thesis
        using pass_ok_Return [OF clean_Nil stop_tail_exit [OF False]] by simp
    qed
  qed
qed

lemma pass_ok_prepend:
  assumes "pass_ok env w f fl evs" "clean pre"
  shows "pass_ok env w f fl (pre @ evs)"
proof (cases "fl = Next")
  case True
  with assms show ?thesis by (simp add: pass_ok_def)
next
  case False
  with assms obtain p tail where h: "handled fl evs = p @ tail" "clean p" "stop_tail env w f tail"
    by (auto simp: pass_ok_def)
  have "handled fl (pre @ evs) = pre @ handled fl evs"
    by (simp add: handled_def split: flow.splits)
  then have "handled fl (pre @ evs) = (pre @ p) @ tail" using h by simp
  moreover have "clean (pre @ p)" using h assms by simp
  ultimately show ?thesis using False h(3) unfolding pass_ok_def by blast
qed

lemma python_block_ok:
  assumes "python_block env w f (include_args w f) s = (fl, evs, s')"
  shows "pass_ok env w f fl evs"
proof (cases "generate_python w \<or> generate_python_grpc w")
  case False
  with assms show ?thesis by (auto simp: python_block_def pass_ok_def)
next
  case en: True
  let ?out = "path_join (output_dir w) ''python''"
  obtain r s1 where mk: "makedirs env ?out s = (r, s1)" by (cases "makedirs env ?out s")
  show ?thesis
  proof (cases r)
    case (Some e)
    with assms en mk have "fl = Raise e" "evs = [] @ [MkDir ?out (Some e)]"
      by (auto simp: python_block_def Let_def)
    then show ?thesis
      using pass_ok_Raise [OF clean_Nil stop_tail_mkdir] by simp
  next
    case None
    show ?thesis
    proof (cases "generate_python_grpc w")
      case True
      obtain ok evs2 s2 where g: "generate_python_with_grpc env f ?out (include_args w f) s1 = (ok, evs2, s2)"
        by (cases "generate_python_with_grpc env f ?out (include_args w f) s1")
      from assms en mk None True g have
        "fl = (if \<not> ok then Return else Next)"
        "evs = [MkDir ?out None, Progress (msg_grpc_progress @ basename f)] @ evs2"
        by (auto simp: python_block_def Let_def)
      note eq = this
      have c: "clean [MkDir ?out None, Progress (msg_grpc_progress @ basename f)]"
        by (simp add: clean_def)
      from pass_ok_prepend [OF generate_python_with_grpc_ok [OF g] c] show ?thesis
        unfolding eq by simp
    next
      case False
      obtain ok evs2 s2 where g: "generate_python_only env f ?out (include_args w f) s1 = (ok, evs2, s2)"
        by (cases "generate_python_only env f ?out (include_args w f) s1")
      from assms en mk None False g have
        "fl = (if \<not> ok then Return else Next)"
        "evs = [MkDir ?out None, Progress (msg_python_progress @ basename f)] @ evs2"
        by (auto simp: python_block_def Let_def)
      note eq = this
      have c: "clean [MkDir ?out None, Progress (msg_python_progress @ basename f)]"
        by (simp add: clean_def)
      from pass_ok_prepend [OF generate_python_only_ok [OF g] c] show ?thesis
        unfolding eq by simp
    qed
  qed
qed

lemma loop_body_ok:
  assumes "loop_body env w n i f s = (fl, evs, s')"
  shows "pass_ok env w f fl evs"
proof -
  let ?start = "[Progress (processing_msg f i n)]"
  have cs: "clean ?start" by (simp add: clean_def)
  obtain fl1 evs1 s1 where j: "java_block env w f (include_args w f) s = (fl1, evs1, s1)"
    by (cases "java_block env w f (include_args w f) s")
  note j_ok = java_block_ok [OF j]
  show ?thesis
  proof (cases "fl1 = Next")
    case True
    obtain fl2 evs2 s2 where p: "python_block env w f (include_args w f) s1 = (fl2, evs2, s2)"
      by (cases "python_block env w f (include_args w f) s1")
    from assms j True p have eq: "fl = fl2" "evs = (?start @ evs1) @ evs2"
      by (auto simp: loop_body_def Let_def)
    from j_ok True have "clean evs1" by (simp add: pass_ok_def)
    with cs have "clean (?start @ evs1)" by (simp add: clean_Cons)
    from pass_ok_prepend [OF python_block_ok [OF p] this] eq show ?thesis by simp
  next
    case False
    with assms j have eq: "fl = fl1" "evs = ?start @ evs1"
      by (auto simp: loop_body_def Let_def split: flow.splits)
    from pass_ok_prepend [OF j_ok cs] eq show ?thesis by simp
  qed
qed

lemma run_loop_ok:
  "run_loop env w n i sc files s = ((fl, sc'), evs, s') \<Longrightarrow> loop_ok env w files fl evs"
proof (induction files arbitrary: i sc s fl sc' evs s')
  case Nil
  then show ?case by (simp add: loop_ok_def)
next
  case (Cons f fs)
  obtain fl1 evs1 s1 where b: "loop_body env w n i f s = (fl1, evs1, s1)"
    by (cases "loop_body env w n i f s")
  note b_ok = loop_body_ok [OF b]
  show ?case
  proof (cases "fl1 = Next")
    case True
    obtain fl2 sc2 evs2 s2 where r: "run_loop env w n (i + 1) (sc + 1) fs s1 = ((fl2, sc2), evs2, s2)"
      by (cases "run_loop env w n (i + 1) (sc + 1) fs s1") auto
    from Cons.prems b True r have eq: "fl = fl2" "evs = evs1 @ evs2" by auto
    from b_ok True have c1: "clean evs1" by (simp add: pass_ok_def)
    from Cons.IH [OF r] have ih: "loop_ok env w fs fl2 evs2" .
    show ?thesis
    proof (cases "fl2 = Next")
      case True
      with ih c1 eq show ?thesis by (simp add: loop_ok_def)
    next
      case False
      with ih obtain pre tail g where h: "handled fl2 evs2 = pre @ tail" "clean pre" "g \<in> set fs"
          "stop_tail env w g tail"
        by (auto simp: loop_ok_def)
      have "handled fl2 (evs1 @ evs2) = evs1 @ handled fl2 evs2"
        by (simp add: handled_def split: flow.splits)
      then have "handled fl evs = (evs1 @ pre) @ tail" using h eq by simp
      moreover have "clean (evs1 @ pre)" using c1 h by simp
      moreover have "g \<in> set (f # fs)" using h by simp
      ultimately show ?thesis using False eq h(4) unfolding loop_ok_def by blast
    qed
  next
    case False
    with Cons.prems b have eq: "fl = fl1" "evs = evs1"
      by (auto split: flow.splits)
    from b_ok False eq show ?thesis
      by (auto simp: pass_ok_def loop_ok_def)
  qed
qed

lemma run_loop_count:
  "run_loop env w n i sc files s = ((Next, sc'), evs, s') \<Longrightarrow> sc' = sc + length files"
proof (induction files arbitrary: i sc s evs s')
  case Nil
  then show ?case by simp
next
  case (Cons f fs)
  obtain fl1 evs1 s1 where b: "loop_body env w n i f s = (fl1, evs1, s1)"
    by (cases "loop_body env w n i f s")
  obtain r2 evs2 s2 where r: "run_loop env w n (i + 1) (sc + 1) fs s1 = (r2, evs2, s2)"
    by (cases "run_loop env w n (i + 1) (sc + 1) fs s1")
  from Cons.prems b r have "fl1 = Next" "r2 = (Next, sc')"
    by (auto split: flow.splits)
  with r Cons.IH [of "i + 1" "sc + 1" s1 evs2 s2] show ?case by simp
qed

lemma run_has_shape: "run_shape env w (fst (run env w s))"
proof -
  obtain fl sc evs s1 where
    r: "run_loop env w (length (proto_files w)) 0 0 (proto_files w) s = ((fl, sc), evs, s1)"
    by (cases "run_loop env w (length (proto_files w)) 0 0 (proto_files w) s") auto
  note ok = run_loop_ok [OF r]
  show ?thesis
  proof (cases "fl = Next")
    case True
    with run_loop_count r have "sc = length (proto_files w)" by fastforce
    moreover from ok True have "clean evs" by (simp add: loop_ok_def)
    ultimately show ?thesis using r True by (simp add: run_def run_shape_def)
  next
    case False
    have "fst (run env w s) = handled fl evs"
      using r False by (cases fl) (simp_all add: run_def handled_def)
    with ok False show ?thesis by (auto simp: loop_ok_def run_shape_def)
  qed
qed

lemma clean_not_failure: "clean pre \<Longrightarrow> e \<in> set pre \<Longrightarrow> \<not> is_failure e"
  by (auto simp: clean_def filter_empty_conv)

lemma stop_tail_last:
  assumes "stop_tail env w f tail"
  shows "\<exists>ev m. tail = [ev, Finished False m] \<and> is_failure ev \<and> \<not> is_finished ev"
  using assms unfolding stop_tail_def by auto

lemma stop_tail_has_failure:
  "stop_tail env w f tail \<Longrightarrow> filter is_failure tail \<noteq> []"
  unfolding stop_tail_def by auto

lemma run_loop_stop_failure:
  assumes "run_loop env w n i sc files s = ((fl, sc'), evs, s')" and "fl \<noteq> Next"
  shows "filter is_failure (handled fl evs) \<noteq> []"
proof -
  from run_loop_ok [OF assms(1)] assms(2) obtain pre tail f where
    "handled fl evs = pre @ tail" "stop_tail env w f tail"
    by (auto simp: loop_ok_def)
  with stop_tail_has_failure show ?thesis by fastforce
qed

lemma run_handled:
  "run_loop env w (length (proto_files w)) 0 0 (proto_files w) s = ((fl, sc), evs, s1)
     \<Longrightarrow> fl \<noteq> Next \<Longrightarrow> fst (run env w s) = handled fl evs"
  by (cases fl) (simp_all add: run_def handled_def)

subsection \<open>One terminal notification, last\<close>

text \<open>
  C8. Every run emits exactly one terminal notification, success or failure, and it is the
  last event of the run: the trace is some events without a terminal notification followed
  by one \<open>Finished\<close>, so that no progress notification and no second terminal one follows.
\<close>

theorem run_one_terminal_last:
  "\<exists>pre ok m. fst (run env w s) = pre @ [Finished ok m] \<and> filter is_finished pre = []"
proof -
  have "run_shape env w (fst (run env w s))" by (rule run_has_shape)
  then consider
    (success) pre where "clean pre"
      "fst (run env w s) = pre @ [Finished True (msg_success (length (proto_files w)))]"
  | (stop) pre tail f where "clean pre" "stop_tail env w f tail" "fst (run env w s) = pre @ tail"
    unfolding run_shape_def by blast
  then show ?thesis
  proof cases
    case success
    then show ?thesis by (auto simp: clean_def)
  next
    case stop
    from stop_tail_last [OF stop(2)] obtain ev m where
      t: "tail = [ev, Finished False m]" "\<not> is_finished ev" by blast
    have "fst (run env w s) = (pre @ [ev]) @ [Finished False m]" using stop(3) t by simp
    moreover have "filter is_finished (pre @ [ev]) = []" using stop(1) t by (simp add: clean_def)
    ultimately show ?thesis by blast
  qed
qed

theorem run_one_terminal_last_witness:
  "\<exists>pre ok m. fst (run (env_fail_nth 1) (worker_java three_files) 0) = pre @ [Finished ok m]
      \<and> filter is_finished pre = []"
  using run_one_terminal_last [of "env_fail_nth 1" "worker_java three_files" 0] .

subsection \<open>A subprocess that exits non-zero\<close>

text \<open>
  C1, as the code has it. When a compiler or toolchain invocation exits non-zero, the run
  stops there: the invocation is followed by exactly one failure terminal notification and
  by nothing else, nothing before it failed or was terminal, and the message is the label
  of the offending target followed by the captured stderr text. The message does not hold
  the file.
\<close>

theorem nonzero_exit_stops_run:
  assumes "Spawn cmd (Inr r) \<in> set (fst (run env w s))" and "returncode r \<noteq> 0"
  shows "\<exists>pre label f. fst (run env w s)
            = pre @ [Spawn cmd (Inr r), Finished False (label @ stderr r)]
          \<and> filter is_finished pre = [] \<and> filter is_failure pre = []
          \<and> f \<in> set (proto_files w) \<and> exit_label env w f cmd label"
proof -
  have fail: "is_failure (Spawn cmd (Inr r))" using assms(2) by simp
  have "run_shape env w (fst (run env w s))" by (rule run_has_shape)
  then consider
    (success) pre where "clean pre"
      "fst (run env w s) = pre @ [Finished True (msg_success (length (proto_files w)))]"
  | (stop) pre tail f where "clean pre" "f \<in> set (proto_files w)" "stop_tail env w f tail"
      "fst (run env w s) = pre @ tail"
    unfolding run_shape_def by blast
  then show ?thesis
  proof cases
    case success
    with assms(1) have "Spawn cmd (Inr r) \<in> set pre" by simp
    with clean_not_failure [OF success(1)] fail show ?thesis by blast
  next
    case stop
    have notpre: "Spawn cmd (Inr r) \<notin> set pre"
      using clean_not_failure [OF stop(1)] fail by blast
    with assms(1) stop(4) have intail: "Spawn cmd (Inr r) \<in> set tail" by simp
    from stop(3) intail obtain label where
      "tail = [Spawn cmd (Inr r), Finished False (label @ stderr r)]" "exit_label env w f cmd label"
      unfolding stop_tail_def by auto
    with stop show ?thesis unfolding clean_def by blast
  qed
qed

theorem nonzero_exit_stops_run_witness:
  "Spawn java_cmd_b (Inr boom_result) \<in> set (fst (run (env_fail_nth 1) (worker_java three_files) 0))
   \<and> returncode boom_result \<noteq> 0
   \<and> (\<exists>pre label f. fst (run (env_fail_nth 1) (worker_java three_files) 0)
            = pre @ [Spawn java_cmd_b (Inr boom_result), Finished False (label @ stderr boom_result)]
          \<and> filter is_finished pre = [] \<and> filter is_failure pre = []
          \<and> f \<in> set (proto_files (worker_java three_files))
          \<and> exit_label (env_fail_nth 1) (worker_java three_files) f java_cmd_b label)"
proof -
  have h1: "Spawn java_cmd_b (Inr boom_result)
              \<in> set (fst (run (env_fail_nth 1) (worker_java three_files) 0))"
    by code_simp
  have h2: "returncode boom_result \<noteq> 0"
    by (simp add: boom_result_def)
  from nonzero_exit_stops_run [OF h1 h2] h1 h2 show ?thesis by blast
qed

text \<open>
  C1 as stated fails on the file: when the Java invocation of \<open>b.proto\<close> exits with 1 and
  the stderr text \<open>boom\<close>, the terminal message is the label and \<open>boom\<close>, and the name
  of the file occurs nowhere in it.
\<close>

theorem terminal_message_omits_file:
  "last (fst (run (env_fail_nth 1) (worker_java three_files) 0))
     = Finished False (msg_java_failed @ ''boom'')
   \<and> \<not> sublist ''b.proto'' (msg_java_failed @ ''boom'')"
  by code_simp

subsection \<open>A call that raises\<close>

text \<open>
  C9. When a call to the operating system raises (a directory cannot be made, a subprocess
  cannot be spawned), the exception does not leave \<open>run\<close>: the failing call is followed by
  exactly one failure terminal notification, which is the last event of the trace and
  carries the exception text after one of the three error labels.
\<close>

theorem fault_becomes_terminal:
  assumes "ev \<in> set (fst (run env w s))" and "ev = MkDir p (Some e) \<or> ev = Spawn cmd (Inl e)"
  shows "\<exists>pre label. fst (run env w s) = pre @ [ev, Finished False (label @ e)]
          \<and> filter is_finished pre = [] \<and> filter is_failure pre = []
          \<and> (label = msg_run_error \<or> label = msg_grpc_error \<or> label = msg_python_error)"
proof -
  have fail: "is_failure ev" using assms(2) by auto
  have "run_shape env w (fst (run env w s))" by (rule run_has_shape)
  then consider
    (success) pre where "clean pre"
      "fst (run env w s) = pre @ [Finished True (msg_success (length (proto_files w)))]"
  | (stop) pre tail f where "clean pre" "f \<in> set (proto_files w)" "stop_tail env w f tail"
      "fst (run env w s) = pre @ tail"
    unfolding run_shape_def by blast
  then show ?thesis
  proof cases
    case success
    with assms have "ev \<in> set pre" by auto
    with clean_not_failure [OF success(1)] fail show ?thesis by blast
  next
    case stop
    have notpre: "ev \<notin> set pre"
      using clean_not_failure [OF stop(1)] fail by blast
    with assms(1) stop(4) have intail: "ev \<in> set tail" by simp
    from stop(3) intail assms(2) obtain label where
      "tail = [ev, Finished False (label @ e)]"
      "label = msg_run_error \<or> label = msg_grpc_error \<or> label = msg_python_error"
      unfolding stop_tail_def fault_label_def by auto
    with stop show ?thesis unfolding clean_def by blast
  qed
qed

theorem fault_becomes_terminal_witness:
  "Spawn grpc_cmd_a (Inl ''No such file or directory'')
     \<in> set (fst (run env_no_spawn (worker_grpc three_files) ()))
   \<and> (\<exists>pre label. fst (run env_no_spawn (worker_grpc three_files) ())
          = pre @ [Spawn grpc_cmd_a (Inl ''No such file or directory''),
                   Finished False (label @ ''No such file or directory'')]
        \<and> filter is_finished pre = [] \<and> filter is_failure pre = []
        \<and> (label = msg_run_error \<or> label = msg_grpc_error \<or> label = msg_python_error))"
proof -
  let ?ev = "Spawn grpc_cmd_a (Inl ''No such file or directory'')"
  have h1: "?ev \<in> set (fst (run env_no_spawn (worker_grpc three_files) ()))"
    by code_simp
  have h2: "?ev = MkDir [] (Some ''No such file or directory'')
            \<or> ?ev = Spawn grpc_cmd_a (Inl ''No such file or directory'')"
    by simp
  from fault_becomes_terminal [OF h1 h2] h1 show ?thesis by blast
qed

subsection \<open>Include arguments\<close>

lemma dirname_bare: "sep \<notin> set f \<Longrightarrow> dirname f = []"
proof -
  assume "sep \<notin> set f"
  then have "dropWhile (\<lambda>c. c \<noteq> sep) (rev f) = []" by (auto simp: dropWhile_eq_Nil_conv)
  then show ?thesis by (simp add: dirname_def path_head_def)
qed

lemma dirname_located:
  assumes "D \<noteq> []" "last D \<noteq> sep" "sep \<notin> set name"
  shows "dirname (D @ sep # name) = D"
proof -
  have "dropWhile (\<lambda>c. c \<noteq> sep) (rev name @ sep # rev D) = sep # rev D"
    using assms(3) by (simp add: dropWhile_append)
  then have h: "path_head (D @ sep # name) = D @ [sep]" by (simp add: path_head_def)
  have "hd (rev D) \<noteq> sep" using assms(1,2) by (simp add: hd_rev)
  then have "dropWhile (\<lambda>c. c = sep) (rev D) = rev D" using assms(1) by (cases "rev D") auto
  then have r: "rstrip_sep (D @ [sep]) = D" by (simp add: rstrip_sep_def)
  have "D @ [sep] \<noteq> replicate (length (D @ [sep])) sep"
  proof
    assume "D @ [sep] = replicate (length (D @ [sep])) sep"
    then have "set (D @ [sep]) \<subseteq> {sep}" by (metis set_replicate_conv_if subset_insertI empty_subsetI order_refl)
    with assms(1) have "last D = sep" by (metis Un_subset_iff last_in_set set_append singletonD subsetD)
    with assms(2) show False by simp
  qed
  with h r show ?thesis by (simp add: dirname_def Let_def)
qed

lemma include_args_nonempty: "include_args w f \<noteq> []"
  by (simp add: include_args_def Let_def)

lemma include_args_fallback:
  "dirname f = [] \<Longrightarrow> include_paths w = [] \<Longrightarrow> include_args w f = [''--proto_path=.'']"
  by (simp add: include_args_def Let_def proto_path_arg_def)

lemma java_block_spawns:
  "java_block env w f (include_args w f) s = (fl, evs, s') \<Longrightarrow> Spawn cmd r \<in> set evs
     \<Longrightarrow> cmd \<in> set (file_cmds env w f)"
  by (auto simp: java_block_def file_cmds_def Let_def
      split: if_splits prod.splits option.splits sum.splits)

lemma python_block_spawns:
  "python_block env w f (include_args w f) s = (fl, evs, s') \<Longrightarrow> Spawn cmd r \<in> set evs
     \<Longrightarrow> cmd \<in> set (file_cmds env w f)"
  by (auto simp: python_block_def generate_python_with_grpc_def generate_python_only_def
        file_cmds_def Let_def
      split: if_splits prod.splits option.splits sum.splits)

lemma loop_body_spawns:
  "loop_body env w n i f s = (fl, evs, s') \<Longrightarrow> Spawn cmd r \<in> set evs
     \<Longrightarrow> cmd \<in> set (file_cmds env w f)"
  by (auto simp: loop_body_def Let_def split: prod.splits flow.splits
      dest: java_block_spawns python_block_spawns)

lemma loop_body_starts:
  "loop_body env w n i f s = (fl, evs, s') \<Longrightarrow> \<exists>rest. evs = Progress (processing_msg f i n) # rest"
  by (auto simp: loop_body_def Let_def split: prod.splits flow.splits)

lemma run_loop_spawns:
  "run_loop env w n i sc files s = (r, evs, s') \<Longrightarrow> Spawn cmd res \<in> set evs
     \<Longrightarrow> \<exists>f \<in> set files. cmd \<in> set (file_cmds env w f)"
proof (induction files arbitrary: i sc s r evs s')
  case Nil
  then show ?case by simp
next
  case (Cons f fs)
  obtain fl1 evs1 s1 where b: "loop_body env w n i f s = (fl1, evs1, s1)"
    by (cases "loop_body env w n i f s")
  obtain r2 evs2 s2 where l: "run_loop env w n (i + 1) (sc + 1) fs s1 = (r2, evs2, s2)"
    by (cases "run_loop env w n (i + 1) (sc + 1) fs s1")
  from Cons.prems b l have "Spawn cmd res \<in> set evs1 \<or> Spawn cmd res \<in> set evs2"
    by (auto split: flow.splits)
  then show ?case
  proof
    assume "Spawn cmd res \<in> set evs1"
    from loop_body_spawns [OF b this] show ?thesis by simp
  next
    assume "Spawn cmd res \<in> set evs2"
    from Cons.IH [OF l this] show ?thesis by auto
  qed
qed

lemma run_spawns:
  assumes "Spawn cmd res \<in> set (fst (run env w s))"
  shows "\<exists>f \<in> set (proto_files w). cmd \<in> set (file_cmds env w f)"
proof -
  obtain r evs s1 where
    l: "run_loop env w (length (proto_files w)) 0 0 (proto_files w) s = (r, evs, s1)"
    by (cases "run_loop env w (length (proto_files w)) 0 0 (proto_files w) s")
  obtain fl sc where r: "r = (fl, sc)" by (cases r)
  from assms l r have "Spawn cmd res \<in> set evs"
    by (cases fl) (auto simp: run_def)
  from run_loop_spawns [OF l this] show ?thesis .
qed

lemma file_cmds_include:
  "cmd \<in> set (file_cmds env w f) \<Longrightarrow> \<exists>pre. cmd = pre @ include_args w f @ [f]"
  by (auto simp: file_cmds_def java_cmd_def grpc_cmd_def python_cmd_def)

lemma file_cmds_last: "cmd \<in> set (file_cmds env w f) \<Longrightarrow> last cmd = f"
  by (auto simp: file_cmds_def java_cmd_def grpc_cmd_def python_cmd_def)

text \<open>
  C4. For a file whose containing directory \<open>os.path.dirname\<close> is \<open>D\<close> (a directory, so
  not the empty text) and any configured include paths, the include arguments are exactly
  those of \<open>D\<close> followed by those of the configured paths, in the configured order: for
  the paths \<open>[A, B]\<close> they are \<open>[D, A, B]\<close>. Every subprocess that a run spawns for the
  file is given exactly these arguments, just before the file.
\<close>

theorem include_args_dir_first:
  assumes "dirname proto_file = D" and "D \<noteq> []"
  shows "include_args w proto_file = map proto_path_arg (D # include_paths w)
       \<and> (\<forall>cmd r. Spawn cmd r \<in> set (fst (run env w s)) \<and> last cmd = proto_file \<longrightarrow>
            (\<exists>pre. cmd = pre @ map proto_path_arg (D # include_paths w) @ [proto_file]))"
proof (intro conjI allI impI)
  show a: "include_args w proto_file = map proto_path_arg (D # include_paths w)"
    using assms by (simp add: include_args_def Let_def)
  fix cmd r
  assume h: "Spawn cmd r \<in> set (fst (run env w s)) \<and> last cmd = proto_file"
  then have sp: "Spawn cmd r \<in> set (fst (run env w s))" and lc: "last cmd = proto_file"
    by simp_all
  from run_spawns [OF sp] obtain g where g: "cmd \<in> set (file_cmds env w g)" by blast
  from file_cmds_last [OF g] lc have "g = proto_file" by simp
  with file_cmds_include [OF g]
  have "\<exists>pre. cmd = pre @ include_args w proto_file @ [proto_file]" by simp
  with a show "\<exists>pre. cmd = pre @ map proto_path_arg (D # include_paths w) @ [proto_file]"
    by simp
qed

theorem include_args_dir_first_witness:
  "dirname ''/src/a.proto'' = ''/src'' \<and> ''/src'' \<noteq> []
   \<and> include_args (worker_grpc three_files) ''/src/a.proto''
       = [''--proto_path=/src'', ''--proto_path=A'', ''--proto_path=B'']
   \<and> Spawn grpc_cmd_a (Inr ok_result) \<in> set (fst (run env_ok (worker_grpc three_files) ()))
   \<and> last grpc_cmd_a = ''/src/a.proto''
   \<and> (\<exists>pre. grpc_cmd_a = pre @ [''--proto_path=/src'', ''--proto_path=A'', ''--proto_path=B'']
                             @ [''/src/a.proto''])"
proof -
  have h1: "dirname ''/src/a.proto'' = ''/src''" by code_simp
  have h2: "''/src'' \<noteq> []" by simp
  have h3: "Spawn grpc_cmd_a (Inr ok_result)
      \<in> set (fst (run env_ok (worker_grpc three_files) ())) \<and> last grpc_cmd_a = ''/src/a.proto''"
    by code_simp
  have e: "map proto_path_arg (''/src'' # include_paths (worker_grpc three_files))
      = [''--proto_path=/src'', ''--proto_path=A'', ''--proto_path=B'']"
    by code_simp
  note t = include_args_dir_first [OF h1 h2, of "worker_grpc three_files" env_ok "()"]
  from t h3 have "\<exists>pre. grpc_cmd_a
      = pre @ map proto_path_arg (''/src'' # include_paths (worker_grpc three_files))
            @ [''/src/a.proto'']" by blast
  with t e h1 h3 show ?thesis by simp
qed

text \<open>
  C10. A file path without a separator (a bare file name) has the empty directory, which
  is left out: the include arguments are exactly those of the configured include paths,
  and the fallback \<open>--proto_path=.\<close> is used only when no include path is configured
  either.
\<close>

theorem include_args_bare_file:
  assumes "sep \<notin> set proto_file"
  shows "dirname proto_file = []
       \<and> include_args w proto_file =
           (if include_paths w = [] then [''--proto_path=.''] else map proto_path_arg (include_paths w))"
  using dirname_bare [OF assms] by (simp add: include_args_def Let_def proto_path_arg_def)

theorem include_args_bare_file_witness:
  "sep \<notin> set ''b.proto'' \<and> dirname ''b.proto'' = []
   \<and> include_args (worker_java three_files) ''b.proto'' = [''--proto_path=.'']
   \<and> include_args (worker_grpc three_files) ''b.proto'' = [''--proto_path=A'', ''--proto_path=B'']"
proof -
  have h: "sep \<notin> set ''b.proto''" by (simp add: sep_def)
  from include_args_bare_file [OF h, of "worker_java three_files"]
       include_args_bare_file [OF h, of "worker_grpc three_files"] h
  show ?thesis
    by (simp add: worker_java_def worker_grpc_def ProtocWorker_init_def proto_path_arg_def)
qed

text \<open>
  C5. When the file has no directory and no include path is configured, the include
  arguments are exactly the single \<open>--proto_path=.\<close>; the include arguments of a file are
  never empty; and every subprocess that a run spawns is given the include arguments of its
  file, just before the file itself, so that no invocation gets an empty include list.
\<close>

theorem include_args_never_empty:
  "(dirname f = [] \<and> include_paths w = [] \<longrightarrow> include_args w f = [''--proto_path=.''])
   \<and> include_args w f \<noteq> []
   \<and> (\<forall>cmd r. Spawn cmd r \<in> set (fst (run env w s)) \<longrightarrow>
        (\<exists>g pre. g \<in> set (proto_files w) \<and> cmd = pre @ include_args w g @ [g]
                 \<and> include_args w g \<noteq> []))"
proof (intro conjI allI impI)
  show "include_args w f = [''--proto_path=.'']" if "dirname f = [] \<and> include_paths w = []"
    using that include_args_fallback by blast
  show "include_args w f \<noteq> []" by (rule include_args_nonempty)
  fix cmd r assume "Spawn cmd r \<in> set (fst (run env w s))"
  from run_spawns [OF this] obtain g where "g \<in> set (proto_files w)" "cmd \<in> set (file_cmds env w g)"
    by blast
  with file_cmds_include include_args_nonempty
  show "\<exists>g pre. g \<in> set (proto_files w) \<and> cmd = pre @ include_args w g @ [g] \<and> include_args w g \<noteq> []"
    by blast
qed

theorem include_args_never_empty_witness:
  "dirname ''b.proto'' = [] \<and> include_paths (worker_java three_files) = []
   \<and> include_args (worker_java three_files) ''b.proto'' = [''--proto_path=.'']
   \<and> Spawn java_cmd_b (Inr boom_result)
        \<in> set (fst (run (env_fail_nth 1) (worker_java three_files) 0))
   \<and> (\<exists>g pre. g \<in> set (proto_files (worker_java three_files))
         \<and> java_cmd_b = pre @ include_args (worker_java three_files) g @ [g]
         \<and> include_args (worker_java three_files) g \<noteq> [])"
proof -
  have h1: "dirname ''b.proto'' = [] \<and> include_paths (worker_java three_files) = []"
    by code_simp
  have h2: "Spawn java_cmd_b (Inr boom_result)
        \<in> set (fst (run (env_fail_nth 1) (worker_java three_files) 0))"
    by code_simp
  note t = include_args_never_empty [of "''b.proto''" "worker_java three_files"
      "env_fail_nth 1" 0]
  from t h1 have c1: "include_args (worker_java three_files) ''b.proto'' = [''--proto_path=.'']"
    by blast
  from t h2 have c2: "\<exists>g pre. g \<in> set (proto_files (worker_java three_files))
         \<and> java_cmd_b = pre @ include_args (worker_java three_files) g @ [g]
         \<and> include_args (worker_java three_files) g \<noteq> []"
    by blast
  from h1 h2 c1 c2 show ?thesis by blast
qed

subsection \<open>One toolchain invocation per file\<close>

lemma toolchain_cmds_append:
  "toolchain_cmds env (xs @ ys) = toolchain_cmds env xs @ toolchain_cmds env ys"
  by (induction env xs rule: toolchain_cmds.induct) auto

lemma path_join_java_python: "path_join out ''java'' \<noteq> path_join out ''python''"
  by (simp add: path_join_def sep_def)

lemma java_block_toolchain:
  assumes "java_block env w f incl s = (fl, evs, s')"
  shows "toolchain_cmds env evs = [] \<and> MkDir (path_join (output_dir w) ''python'') r \<notin> set evs"
  using assms path_join_java_python [of "output_dir w"]
  by (auto simp: java_block_def java_cmd_def Let_def
      split: if_splits prod.splits option.splits sum.splits)

lemma python_block_toolchain:
  assumes "generate_python_grpc w"
    and "python_block env w f (include_args w f) s = (fl, evs, s')"
  shows "toolchain_cmds env evs =
           (if MkDir (path_join (output_dir w) ''python'') None \<in> set evs
            then [grpc_cmd_of env w f] else [])
         \<and> (fl = Next \<longrightarrow> MkDir (path_join (output_dir w) ''python'') None \<in> set evs)"
  using assms
  by (auto simp: python_block_def generate_python_with_grpc_def grpc_cmd_def grpc_cmd_of_def Let_def
      split: if_splits prod.splits option.splits sum.splits)

lemma loop_body_toolchain:
  assumes "generate_python_grpc w"
    and "loop_body env w n i f s = (fl, evs, s')"
  shows "toolchain_cmds env evs =
           (if MkDir (path_join (output_dir w) ''python'') None \<in> set evs
            then [grpc_cmd_of env w f] else [])
         \<and> (fl = Next \<longrightarrow> MkDir (path_join (output_dir w) ''python'') None \<in> set evs)"
proof -
  let ?po = "path_join (output_dir w) ''python''"
  obtain fl1 evs1 s1 where j: "java_block env w f (include_args w f) s = (fl1, evs1, s1)"
    by (cases "java_block env w f (include_args w f) s")
  from java_block_toolchain [OF j] have j1: "toolchain_cmds env evs1 = []"
    and j2: "MkDir ?po None \<notin> set evs1" by auto
  show ?thesis
  proof (cases "fl1 = Next")
    case True
    obtain fl2 evs2 s2 where p: "python_block env w f (include_args w f) s1 = (fl2, evs2, s2)"
      by (cases "python_block env w f (include_args w f) s1")
    from assms(2) j True p have eq: "fl = fl2"
      "evs = [Progress (processing_msg f i n)] @ evs1 @ evs2"
      by (auto simp: loop_body_def Let_def)
    from python_block_toolchain [OF assms(1) p] j1 j2 show ?thesis
      unfolding eq by (simp add: toolchain_cmds_append)
  next
    case False
    with assms(2) j have eq: "fl = fl1" "evs = [Progress (processing_msg f i n)] @ evs1"
      by (auto simp: loop_body_def Let_def split: flow.splits)
    from j1 j2 False show ?thesis
      unfolding eq by (simp add: toolchain_cmds_append)
  qed
qed

lemma run_loop_toolchain:
  assumes "generate_python_grpc w"
  shows "run_loop env w n i sc files s = ((fl, sc'), evs, s')
     \<Longrightarrow> \<exists>k \<le> length files. toolchain_cmds env evs = map (grpc_cmd_of env w) (take k files)
            \<and> (fl = Next \<longrightarrow> k = length files)"
proof (induction files arbitrary: i sc s fl sc' evs s')
  case Nil
  then show ?case by simp
next
  case (Cons f fs)
  obtain fl1 evs1 s1 where b: "loop_body env w n i f s = (fl1, evs1, s1)"
    by (cases "loop_body env w n i f s")
  note t = loop_body_toolchain [OF assms b]
  show ?case
  proof (cases "fl1 = Next")
    case True
    obtain fl2 sc2 evs2 s2 where
      l: "run_loop env w n (i + 1) (sc + 1) fs s1 = ((fl2, sc2), evs2, s2)"
      by (cases "run_loop env w n (i + 1) (sc + 1) fs s1") auto
    from Cons.prems b True l have eq: "fl = fl2" "evs = evs1 @ evs2" by auto
    from Cons.IH [OF l] obtain k where k: "k \<le> length fs"
      "toolchain_cmds env evs2 = map (grpc_cmd_of env w) (take k fs)"
      "fl2 = Next \<longrightarrow> k = length fs" by blast
    from t True have "toolchain_cmds env evs1 = [grpc_cmd_of env w f]" by simp
    with k eq have "Suc k \<le> length (f # fs)"
      "toolchain_cmds env evs = map (grpc_cmd_of env w) (take (Suc k) (f # fs))"
      "fl = Next \<longrightarrow> Suc k = length (f # fs)"
      by (simp_all add: toolchain_cmds_append)
    then show ?thesis by blast
  next
    case False
    with Cons.prems b have eq: "fl = fl1" "evs = evs1" by (auto split: flow.splits)
    show ?thesis
    proof (cases "MkDir (path_join (output_dir w) ''python'') None \<in> set evs1")
      case True
      with t eq False have "Suc 0 \<le> length (f # fs)"
        "toolchain_cmds env evs = map (grpc_cmd_of env w) (take (Suc 0) (f # fs))"
        "fl = Next \<longrightarrow> Suc 0 = length (f # fs)" by simp_all
      then show ?thesis by blast
    next
      case F: False
      with t eq False have "0 \<le> length (f # fs)"
        "toolchain_cmds env evs = map (grpc_cmd_of env w) (take 0 (f # fs))"
        "fl = Next \<longrightarrow> 0 = length (f # fs)" by simp_all
      then show ?thesis by blast
    qed
  qed
qed

lemma run_toolchain:
  assumes "generate_python_grpc w"
  shows "\<exists>k \<le> length (proto_files w).
           toolchain_cmds env (fst (run env w s)) = map (grpc_cmd_of env w) (take k (proto_files w))
           \<and> (filter is_failure (fst (run env w s)) = [] \<longrightarrow> k = length (proto_files w))"
proof -
  obtain fl sc evs s1 where
    l: "run_loop env w (length (proto_files w)) 0 0 (proto_files w) s = ((fl, sc), evs, s1)"
    by (cases "run_loop env w (length (proto_files w)) 0 0 (proto_files w) s") auto
  have tc: "toolchain_cmds env (fst (run env w s)) = toolchain_cmds env evs"
    using l by (cases fl) (simp_all add: run_def toolchain_cmds_append)
  have nx: "fl = Next" if "filter is_failure (fst (run env w s)) = []"
  proof (rule ccontr)
    assume "fl \<noteq> Next"
    from run_loop_stop_failure [OF l this] run_handled [OF l this] that show False by simp
  qed
  from run_loop_toolchain [OF assms l] obtain k where
    "k \<le> length (proto_files w)"
    "toolchain_cmds env evs = map (grpc_cmd_of env w) (take k (proto_files w))"
    "fl = Next \<longrightarrow> k = length (proto_files w)" by blast
  with tc nx show ?thesis by auto
qed

text \<open>
  C6. With \<open>generate_python_grpc\<close> set (whatever \<open>generate_python\<close> is), one pass through
  the loop body for a file spawns the toolchain exactly once as soon as the Python output
  directory has been made, and that command asks for both \<open>--python_out\<close> and
  \<open>--grpc_python_out\<close>; it spawns no toolchain command when the pass stopped before; a pass
  that completes has exactly one. Over a whole run the toolchain commands are those of the
  first \<open>k\<close> files, one each, in order, never two for a file; and they are those of all the
  files when no call of the run fails.
\<close>

theorem grpc_one_toolchain_invocation:
  assumes "generate_python_grpc w"
  shows "toolchain_cmds env (fst (snd (loop_body env w n i f s))) =
           (if MkDir (path_join (output_dir w) ''python'') None
                 \<in> set (fst (snd (loop_body env w n i f s)))
            then [[sys_executable env, ''-m'', ''grpc_tools.protoc'',
                   ''--python_out='' @ path_join (output_dir w) ''python'',
                   ''--grpc_python_out='' @ path_join (output_dir w) ''python'']
                  @ include_args w f @ [f]]
            else [])
       \<and> (fst (loop_body env w n i f s) = Next \<longrightarrow>
            length (toolchain_cmds env (fst (snd (loop_body env w n i f s)))) = 1)
       \<and> (\<exists>k \<le> length (proto_files w).
            toolchain_cmds env (fst (run env w s)) = map (grpc_cmd_of env w) (take k (proto_files w))
            \<and> (filter is_failure (fst (run env w s)) = [] \<longrightarrow> k = length (proto_files w)))"
proof -
  obtain fl evs s' where b: "loop_body env w n i f s = (fl, evs, s')"
    by (cases "loop_body env w n i f s")
  from loop_body_toolchain [OF assms b] run_toolchain [OF assms, of env s] b
  show ?thesis by (simp add: grpc_cmd_of_def)
qed

theorem grpc_one_toolchain_invocation_witness:
  "generate_python_grpc (worker_grpc three_files)
   \<and> toolchain_cmds env_ok
        (fst (snd (loop_body env_ok (worker_grpc three_files) 3 0 ''/src/a.proto'' ())))
       = [grpc_cmd_a]
   \<and> filter is_failure (fst (run env_ok (worker_grpc three_files) ())) = []
   \<and> toolchain_cmds env_ok (fst (run env_ok (worker_grpc three_files) ()))
       = map (grpc_cmd_of env_ok (worker_grpc three_files)) (proto_files (worker_grpc three_files))"
proof -
  have h: "generate_python_grpc (worker_grpc three_files)"
    by (simp add: worker_grpc_def ProtocWorker_init_def)
  have m: "MkDir (path_join (output_dir (worker_grpc three_files)) ''python'') None
      \<in> set (fst (snd (loop_body env_ok (worker_grpc three_files) 3 0 ''/src/a.proto'' ())))"
    by code_simp
  have c: "[sys_executable env_ok, ''-m'', ''grpc_tools.protoc'',
            ''--python_out='' @ path_join (output_dir (worker_grpc three_files)) ''python'',
            ''--grpc_python_out='' @ path_join (output_dir (worker_grpc three_files)) ''python'']
           @ include_args (worker_grpc three_files) ''/src/a.proto'' @ [''/src/a.proto'']
         = grpc_cmd_a"
    by code_simp
  have nf: "filter is_failure (fst (run env_ok (worker_grpc three_files) ())) = []"
    by code_simp
  note t = grpc_one_toolchain_invocation [OF h, of env_ok 3 0 "''/src/a.proto''" "()"]
  from t m c have one: "toolchain_cmds env_ok
        (fst (snd (loop_body env_ok (worker_grpc three_files) 3 0 ''/src/a.proto'' ())))
       = [grpc_cmd_a]" by simp
  from t nf have "toolchain_cmds env_ok (fst (run env_ok (worker_grpc three_files) ()))
       = map (grpc_cmd_of env_ok (worker_grpc three_files)) (proto_files (worker_grpc three_files))"
    by auto
  with h one nf show ?thesis by blast
qed

subsection \<open>The notifications of a run without failure\<close>

lemma notifications_append:
  "notifications (xs @ ys) = notifications xs @ notifications ys"
  by (simp add: notifications_def)

lemma java_block_notifications:
  "java_block env w f incl s = (Next, evs, s')
     \<Longrightarrow> notifications evs
         = (if generate_java w then [Progress (msg_java_progress @ basename f)] else [])"
  by (auto simp: java_block_def notifications_def Let_def
      split: if_splits prod.splits option.splits sum.splits)

lemma python_block_notifications:
  "python_block env w f incl s = (Next, evs, s')
     \<Longrightarrow> notifications evs
         = (if generate_python_grpc w then [Progress (msg_grpc_progress @ basename f)]
            else if generate_python w then [Progress (msg_python_progress @ basename f)]
            else [])"
  by (auto simp: python_block_def generate_python_with_grpc_def generate_python_only_def
        notifications_def Let_def
      split: if_splits prod.splits option.splits sum.splits)

lemma loop_body_notifications:
  assumes "loop_body env w n i f s = (Next, evs, s')"
  shows "notifications evs = file_notifications w n (i, f)"
proof -
  obtain fl1 evs1 s1 where j: "java_block env w f (include_args w f) s = (fl1, evs1, s1)"
    by (cases "java_block env w f (include_args w f) s")
  obtain fl2 evs2 s2 where p: "python_block env w f (include_args w f) s1 = (fl2, evs2, s2)"
    by (cases "python_block env w f (include_args w f) s1")
  from assms j p have eq: "fl1 = Next" "fl2 = Next"
    "evs = [Progress (processing_msg f i n)] @ evs1 @ evs2"
    by (auto simp: loop_body_def Let_def split: flow.splits)
  from j eq(1) have j': "java_block env w f (include_args w f) s = (Next, evs1, s1)" by simp
  from p eq(2) have p': "python_block env w f (include_args w f) s1 = (Next, evs2, s2)" by simp
  note java_block_notifications [OF j'] python_block_notifications [OF p']
  then show ?thesis
    unfolding eq(3) notifications_append file_notifications_def
    by (simp add: notifications_def)
qed

lemma run_loop_notifications:
  "run_loop env w n i sc files s = ((Next, sc'), evs, s')
     \<Longrightarrow> notifications evs = concat (map (file_notifications w n) (enumerate i files))"
proof (induction files arbitrary: i sc s evs s')
  case Nil
  then show ?case by (simp add: notifications_def)
next
  case (Cons f fs)
  obtain fl1 evs1 s1 where b: "loop_body env w n i f s = (fl1, evs1, s1)"
    by (cases "loop_body env w n i f s")
  obtain r2 evs2 s2 where l: "run_loop env w n (i + 1) (sc + 1) fs s1 = (r2, evs2, s2)"
    by (cases "run_loop env w n (i + 1) (sc + 1) fs s1")
  from Cons.prems b l have eq: "fl1 = Next" "r2 = (Next, sc')" "evs = evs1 @ evs2"
    by (auto split: flow.splits)
  from Cons.IH [of "i + 1" "sc + 1" s1 evs2 s2] l eq(2)
  have "notifications evs2 = concat (map (file_notifications w n) (enumerate (Suc i) fs))"
    by simp
  moreover from b eq(1) have "loop_body env w n i f s = (Next, evs1, s1)" by simp
  from loop_body_notifications [OF this]
  have "notifications evs1 = file_notifications w n (i, f)" .
  ultimately show ?case unfolding eq(3) notifications_append by simp
qed

text \<open>
  C2, as the code has it. In a run of \<open>N\<close> files in which no call fails, the notifications
  are, for each file in list order, the notification naming the file and its position
  \<open>i/N\<close> followed by one progress notification for each enabled target group (Java; Python
  or Python with gRPC), and after them exactly one success terminal notification whose
  count is \<open>N\<close>. There are \<open>N\<close> position notifications, not \<open>N\<close> progress notifications.
\<close>

theorem all_succeed_notifications:
  assumes "filter is_failure (fst (run env w s)) = []"
  shows "notifications (fst (run env w s))
           = concat (map (file_notifications w (length (proto_files w)))
                         (enumerate 0 (proto_files w)))
             @ [Finished True (msg_success (length (proto_files w)))]"
proof -
  obtain fl sc evs s1 where
    l: "run_loop env w (length (proto_files w)) 0 0 (proto_files w) s = ((fl, sc), evs, s1)"
    by (cases "run_loop env w (length (proto_files w)) 0 0 (proto_files w) s") auto
  have nx: "fl = Next"
  proof (rule ccontr)
    assume "fl \<noteq> Next"
    from run_loop_stop_failure [OF l this] run_handled [OF l this] assms show False by simp
  qed
  with run_loop_count l have sc: "sc = length (proto_files w)" by fastforce
  from l nx sc have "fst (run env w s)
      = evs @ [Finished True (msg_success (length (proto_files w)))]"
    by (simp add: run_def)
  moreover from l nx have "run_loop env w (length (proto_files w)) 0 0 (proto_files w) s
      = ((Next, sc), evs, s1)" by simp
  from run_loop_notifications [OF this]
  have "notifications evs = concat (map (file_notifications w (length (proto_files w)))
                         (enumerate 0 (proto_files w)))" .
  ultimately show ?thesis by (simp add: notifications_append) (simp add: notifications_def)
qed

theorem all_succeed_notifications_witness:
  "filter is_failure (fst (run env_ok (worker_grpc three_files) ())) = []
   \<and> notifications (fst (run env_ok (worker_grpc three_files) ()))
       = concat (map (file_notifications (worker_grpc three_files)
                        (length (proto_files (worker_grpc three_files))))
                     (enumerate 0 (proto_files (worker_grpc three_files))))
         @ [Finished True (msg_success (length (proto_files (worker_grpc three_files))))]"
proof -
  have h: "filter is_failure (fst (run env_ok (worker_grpc three_files) ())) = []"
    by code_simp
  from h all_succeed_notifications [OF h] show ?thesis by (rule conjI)
qed

text \<open>
  C2 as stated fails: one file, the Java target only, every call succeeding, and the run
  emits two progress notifications, the second one for the target.
\<close>

theorem progress_per_target_too:
  "filter is_failure (fst (run env_ok (worker_java [''a.proto'']) ())) = []
   \<and> length (proto_files (worker_java [''a.proto''])) = 1
   \<and> filter is_progress (fst (run env_ok (worker_java [''a.proto'']) ()))
       = [Progress (processing_msg ''a.proto'' 0 1), Progress (msg_java_progress @ ''a.proto'')]"
  by code_simp

subsection \<open>When the position notification is emitted\<close>

lemma prefix_processing [simp]: "prefix msg_processing (processing_msg f i n)"
  by (simp add: processing_msg_def)

lemma not_prefix_target [simp]:
  "\<not> prefix msg_processing (msg_java_progress @ x)"
  "\<not> prefix msg_processing (msg_grpc_progress @ x)"
  "\<not> prefix msg_processing (msg_python_progress @ x)"
  by (simp_all add: msg_processing_def msg_java_progress_def msg_grpc_progress_def
        msg_python_progress_def)

lemma java_block_positions:
  "java_block env w f incl s = (fl, evs, s') \<Longrightarrow> filter is_position evs = []"
  by (auto simp: java_block_def Let_def
      split: if_splits prod.splits option.splits sum.splits)

lemma python_block_positions:
  "python_block env w f incl s = (fl, evs, s') \<Longrightarrow> filter is_position evs = []"
  by (auto simp: python_block_def generate_python_with_grpc_def generate_python_only_def Let_def
      split: if_splits prod.splits option.splits sum.splits)

lemma loop_body_positions:
  assumes "loop_body env w n i f s = (fl, evs, s')"
  shows "filter is_position evs = [Progress (processing_msg f i n)]"
proof -
  obtain fl1 evs1 s1 where j: "java_block env w f (include_args w f) s = (fl1, evs1, s1)"
    by (cases "java_block env w f (include_args w f) s")
  obtain fl2 evs2 s2 where p: "python_block env w f (include_args w f) s1 = (fl2, evs2, s2)"
    by (cases "python_block env w f (include_args w f) s1")
  from assms j p have "evs = [Progress (processing_msg f i n)] @ evs1 @ evs2
      \<or> evs = [Progress (processing_msg f i n)] @ evs1"
    by (auto simp: loop_body_def Let_def split: flow.splits)
  with java_block_positions [OF j] python_block_positions [OF p] show ?thesis by auto
qed

lemma run_loop_positions:
  "run_loop env w n i sc files s = ((fl, sc'), evs, s')
     \<Longrightarrow> sc \<le> sc' \<and> filter is_position evs
           = map (position_of n) (enumerate i (take (sc' - sc + (if fl = Next then 0 else 1)) files))"
proof (induction files arbitrary: i sc s fl sc' evs s')
  case Nil
  then show ?case by simp
next
  case (Cons f fs)
  obtain fl1 evs1 s1 where b: "loop_body env w n i f s = (fl1, evs1, s1)"
    by (cases "loop_body env w n i f s")
  note p1 = loop_body_positions [OF b]
  show ?case
  proof (cases "fl1 = Next")
    case True
    obtain fl2 sc2 evs2 s2 where
      l: "run_loop env w n (i + 1) (sc + 1) fs s1 = ((fl2, sc2), evs2, s2)"
      by (cases "run_loop env w n (i + 1) (sc + 1) fs s1") auto
    from Cons.prems b True l have eq: "fl = fl2" "sc' = sc2" "evs = evs1 @ evs2" by auto
    from Cons.IH [OF l] have ih: "sc + 1 \<le> sc2"
      "filter is_position evs2 = map (position_of n)
         (enumerate (i + 1) (take (sc2 - (sc + 1) + (if fl2 = Next then 0 else 1)) fs))"
      by auto
    from ih(1) have k: "sc2 - sc + (if fl2 = Next then 0 else 1)
        = Suc (sc2 - (sc + 1) + (if fl2 = Next then 0 else 1))" by simp
    from ih p1 show ?thesis
      unfolding eq k by (simp add: position_of_def)
  next
    case False
    with Cons.prems b have eq: "fl = fl1" "sc' = sc" "evs = evs1" by (auto split: flow.splits)
    from p1 False show ?thesis unfolding eq by (simp add: position_of_def)
  qed
qed

lemma run_loop_clean_Next:
  assumes "run_loop env w n i sc files s = ((Next, sc'), evs, s')"
  shows "filter is_failure evs = []"
  using run_loop_ok [OF assms] by (simp add: loop_ok_def clean_def)

lemma run_positions_stopped:
  assumes "filter is_failure (fst (run env w s)) \<noteq> []"
  shows "filter is_position (fst (run env w s))
           = map (position_of (length (proto_files w)))
               (enumerate 0 (take (Suc (final_success_count env w s)) (proto_files w)))"
proof -
  obtain fl sc evs s1 where
    l: "run_loop env w (length (proto_files w)) 0 0 (proto_files w) s = ((fl, sc), evs, s1)"
    by (cases "run_loop env w (length (proto_files w)) 0 0 (proto_files w) s") auto
  have nx: "fl \<noteq> Next"
  proof
    assume n: "fl = Next"
    with l have "fst (run env w s) = evs @ [Finished True (msg_success sc)]"
      by (simp add: run_def)
    moreover from l n run_loop_clean_Next have "filter is_failure evs = []" by fastforce
    ultimately show False using assms by simp
  qed
  have "filter is_position (fst (run env w s)) = filter is_position evs"
    using l nx by (cases fl) (simp_all add: run_def)
  moreover have "final_success_count env w s = sc" using l by (simp add: final_success_count_def)
  ultimately show ?thesis using run_loop_positions [OF l] nx by simp
qed

lemma run_loop_order:
  "run_loop env w n i sc files s = (r, evs, s') \<Longrightarrow> evs = xs @ Spawn cmd res # ys
     \<Longrightarrow> \<exists>j < length files. last cmd = files ! j
            \<and> Progress (processing_msg (files ! j) (i + j) n) \<in> set xs"
proof (induction files arbitrary: i sc s r evs s' xs)
  case Nil
  then show ?case by simp
next
  case (Cons f fs)
  obtain fl1 evs1 s1 where b: "loop_body env w n i f s = (fl1, evs1, s1)"
    by (cases "loop_body env w n i f s")
  obtain r2 evs2 s2 where l: "run_loop env w n (i + 1) (sc + 1) fs s1 = (r2, evs2, s2)"
    by (cases "run_loop env w n (i + 1) (sc + 1) fs s1")
  from loop_body_starts [OF b] obtain rest where
    st: "evs1 = Progress (processing_msg f i n) # rest" by blast
  from Cons.prems(1) b l have "evs = evs1 @ evs2 \<or> evs = evs1"
    by (auto split: flow.splits)
  then have "evs1 @ evs2 = xs @ Spawn cmd res # ys \<or> evs1 = xs @ Spawn cmd res # ys"
    using Cons.prems(2) by auto
  then consider
    (here) zs where "evs1 = xs @ Spawn cmd res # zs"
  | (later) us where "xs = evs1 @ us" "evs2 = us @ Spawn cmd res # ys"
  proof
    assume "evs1 @ evs2 = xs @ Spawn cmd res # ys"
    then obtain us where "evs1 = xs @ us \<and> us @ evs2 = Spawn cmd res # ys
        \<or> evs1 @ us = xs \<and> evs2 = us @ Spawn cmd res # ys"
      by (auto simp: append_eq_append_conv2)
    then show ?thesis
    proof
      assume h: "evs1 = xs @ us \<and> us @ evs2 = Spawn cmd res # ys"
      show ?thesis
      proof (cases us)
        case Nil
        with h have "xs = evs1 @ []" "evs2 = [] @ Spawn cmd res # ys" by simp_all
        then show ?thesis by (rule later)
      next
        case (Cons u us')
        with h have "evs1 = xs @ Spawn cmd res # us'" by simp
        then show ?thesis by (rule here)
      qed
    next
      assume "evs1 @ us = xs \<and> evs2 = us @ Spawn cmd res # ys"
      then have "xs = evs1 @ us" "evs2 = us @ Spawn cmd res # ys" by auto
      then show ?thesis by (rule later)
    qed
  next
    assume "evs1 = xs @ Spawn cmd res # ys"
    then show ?thesis by (rule here)
  qed
  then show ?case
  proof cases
    case here
    then have "Spawn cmd res \<in> set evs1" by simp
    from file_cmds_last [OF loop_body_spawns [OF b this]] have lc: "last cmd = f" .
    from here st have "xs \<noteq> []" by (cases xs) auto
    with here st have "Progress (processing_msg f i n) \<in> set xs" by (cases xs) auto
    with lc have "0 < length (f # fs) \<and> last cmd = (f # fs) ! 0
        \<and> Progress (processing_msg ((f # fs) ! 0) (i + 0) n) \<in> set xs" by simp
    then show ?thesis by blast
  next
    case later
    from Cons.IH [OF l later(2)] obtain j where j: "j < length fs" "last cmd = fs ! j"
      "Progress (processing_msg (fs ! j) (i + 1 + j) n) \<in> set us" by blast
    with later(1) have "Suc j < length (f # fs) \<and> last cmd = (f # fs) ! Suc j
        \<and> Progress (processing_msg ((f # fs) ! Suc j) (i + Suc j) n) \<in> set xs" by simp
    then show ?thesis by blast
  qed
qed

lemma run_order:
  assumes "fst (run env w s) = xs @ Spawn cmd res # ys"
  shows "\<exists>j < length (proto_files w). last cmd = proto_files w ! j
            \<and> Progress (processing_msg (proto_files w ! j) j (length (proto_files w))) \<in> set xs"
proof -
  obtain fl sc evs s1 where
    l: "run_loop env w (length (proto_files w)) 0 0 (proto_files w) s = ((fl, sc), evs, s1)"
    by (cases "run_loop env w (length (proto_files w)) 0 0 (proto_files w) s") auto
  have "\<exists>fin. fst (run env w s) = evs @ fin \<and> (fin = [] \<or> (\<exists>b m. fin = [Finished b m]))"
    using l by (cases fl) (auto simp: run_def)
  then obtain fin where f: "evs @ fin = xs @ Spawn cmd res # ys"
    "fin = [] \<or> (\<exists>b m. fin = [Finished b m])" using assms by auto
  have "\<exists>zs. evs = xs @ Spawn cmd res # zs"
  proof (cases "fin = []")
    case True
    with f show ?thesis by simp
  next
    case False
    with f(2) obtain b m where fin: "fin = [Finished b m]" by blast
    have "ys \<noteq> []"
    proof
      assume "ys = []"
      with f(1) fin have "last (evs @ [Finished b m]) = last (xs @ [Spawn cmd res])" by simp
      then show False by simp
    qed
    then obtain zs z where "ys = zs @ [z]" by (metis rev_exhaust)
    with f(1) fin have "evs @ [Finished b m] = (xs @ Spawn cmd res # zs) @ [z]" by simp
    then have "evs = xs @ Spawn cmd res # zs" by (simp only: append1_eq_conv)
    then show ?thesis by blast
  qed
  then obtain zs where "evs = xs @ Spawn cmd res # zs" by blast
  from run_loop_order [OF l this] show ?thesis by simp
qed

text \<open>
  C3, as the code has it. The notification naming a file and its position is emitted when
  the pass for the file starts: every subprocess of a run is spawned for some file of the
  list (the last argument of its command) whose position notification is already in the
  trace before it. When the run stops at a failure after \<open>k\<close> files succeeded, the position
  notifications of the trace are exactly those of the first \<open>k + 1\<close> files, the file that
  failed included: two, for files 1 and 2, when the second of three files fails.
\<close>

theorem position_notification_first:
  "(\<forall>xs cmd res ys. fst (run env w s) = xs @ Spawn cmd res # ys \<longrightarrow>
      (\<exists>j < length (proto_files w). last cmd = proto_files w ! j
         \<and> Progress (processing_msg (proto_files w ! j) j (length (proto_files w))) \<in> set xs))
   \<and> (filter is_failure (fst (run env w s)) \<noteq> [] \<longrightarrow>
        filter is_position (fst (run env w s))
          = map (position_of (length (proto_files w)))
              (enumerate 0 (take (Suc (final_success_count env w s)) (proto_files w))))"
proof (intro conjI allI impI)
  fix xs cmd res ys
  assume "fst (run env w s) = xs @ Spawn cmd res # ys"
  then show "\<exists>j < length (proto_files w). last cmd = proto_files w ! j
         \<and> Progress (processing_msg (proto_files w ! j) j (length (proto_files w))) \<in> set xs"
    by (rule run_order)
next
  assume "filter is_failure (fst (run env w s)) \<noteq> []"
  then show "filter is_position (fst (run env w s))
          = map (position_of (length (proto_files w)))
              (enumerate 0 (take (Suc (final_success_count env w s)) (proto_files w)))"
    by (rule run_positions_stopped)
qed

theorem position_notification_first_witness:
  "fst (run (env_fail_nth 1) (worker_java three_files) 0)
     = take 7 (fst (run (env_fail_nth 1) (worker_java three_files) 0))
       @ Spawn java_cmd_b (Inr boom_result)
       # drop 8 (fst (run (env_fail_nth 1) (worker_java three_files) 0))
   \<and> (\<exists>j < length (proto_files (worker_java three_files)).
         last java_cmd_b = proto_files (worker_java three_files) ! j
         \<and> Progress (processing_msg (proto_files (worker_java three_files) ! j) j
                       (length (proto_files (worker_java three_files))))
             \<in> set (take 7 (fst (run (env_fail_nth 1) (worker_java three_files) 0))))
   \<and> filter is_failure (fst (run (env_fail_nth 1) (worker_java three_files) 0)) \<noteq> []
   \<and> filter is_position (fst (run (env_fail_nth 1) (worker_java three_files) 0))
       = map (position_of (length (proto_files (worker_java three_files))))
           (enumerate 0 (take (Suc (final_success_count (env_fail_nth 1)
                                      (worker_java three_files) 0))
                              (proto_files (worker_java three_files))))
   \<and> map (position_of (length (proto_files (worker_java three_files))))
           (enumerate 0 (take (Suc (final_success_count (env_fail_nth 1)
                                      (worker_java three_files) 0))
                              (proto_files (worker_java three_files))))
       = [Progress (processing_msg ''/src/a.proto'' 0 3), Progress (processing_msg ''b.proto'' 1 3)]"
proof -
  have h1: "fst (run (env_fail_nth 1) (worker_java three_files) 0)
     = take 7 (fst (run (env_fail_nth 1) (worker_java three_files) 0))
       @ Spawn java_cmd_b (Inr boom_result)
       # drop 8 (fst (run (env_fail_nth 1) (worker_java three_files) 0))"
    by code_simp
  have h2: "filter is_failure (fst (run (env_fail_nth 1) (worker_java three_files) 0)) \<noteq> []"
    by code_simp
  have e: "map (position_of (length (proto_files (worker_java three_files))))
           (enumerate 0 (take (Suc (final_success_count (env_fail_nth 1)
                                      (worker_java three_files) 0))
                              (proto_files (worker_java three_files))))
       = [Progress (processing_msg ''/src/a.proto'' 0 3), Progress (processing_msg ''b.proto'' 1 3)]"
    by code_simp
  note t = position_notification_first [of "env_fail_nth 1" "worker_java three_files" 0]
  from t h1 have c1: "\<exists>j < length (proto_files (worker_java three_files)).
         last java_cmd_b = proto_files (worker_java three_files) ! j
         \<and> Progress (processing_msg (proto_files (worker_java three_files) ! j) j
                       (length (proto_files (worker_java three_files))))
             \<in> set (take 7 (fst (run (env_fail_nth 1) (worker_java three_files) 0)))"
    by blast
  from t h2 have c2: "filter is_position (fst (run (env_fail_nth 1) (worker_java three_files) 0))
       = map (position_of (length (proto_files (worker_java three_files))))
           (enumerate 0 (take (Suc (final_success_count (env_fail_nth 1)
                                      (worker_java three_files) 0))
                              (proto_files (worker_java three_files))))"
    by blast
  from h1 c1 h2 c2 e show ?thesis by (intro conjI)
qed

text \<open>
  C3 as stated fails: when the Java invocation of the second of three files exits with 1,
  four progress notifications have been emitted before the failure, among them the
  position notification of the second file, whose target did not succeed.
\<close>

theorem position_notification_of_failed_file:
  "Spawn java_cmd_b (Inr boom_result)
     \<in> set (fst (run (env_fail_nth 1) (worker_java three_files) 0))
   \<and> filter is_progress (fst (run (env_fail_nth 1) (worker_java three_files) 0))
       = [Progress (processing_msg ''/src/a.proto'' 0 3),
          Progress (msg_java_progress @ ''a.proto''),
          Progress (processing_msg ''b.proto'' 1 3),
          Progress (msg_java_progress @ ''b.proto'')]"
  by code_simp

subsection \<open>Validation in \<open>start_conversion\<close>\<close>

text \<open>
  C7. When the file list is empty, or the output directory text is empty, or no target is
  checked, \<open>start_conversion\<close> shows the warning for the first violated rule and returns:
  that warning is its only event, so no subprocess is spawned, no directory is made and no
  worker is started, and the world is unchanged.
\<close>

theorem invalid_job_rejected:
  assumes "gui_proto_files g = [] \<or> output_dir_text g = []
           \<or> (\<not> java_checked g \<and> \<not> python_checked g \<and> \<not> python_grpc_checked g)"
  shows "start_conversion env g s =
           (None,
            [Warning msg_error_title
               (if gui_proto_files g = [] then msg_no_files
                else if output_dir_text g = [] then msg_no_output
                else msg_no_target)],
            s)"
  using assms by (auto simp: start_conversion_def Let_def)

theorem invalid_job_rejected_witness:
  "(gui_proto_files gui_no_files = [] \<or> output_dir_text gui_no_files = []
      \<or> (\<not> java_checked gui_no_files \<and> \<not> python_checked gui_no_files
          \<and> \<not> python_grpc_checked gui_no_files))
   \<and> start_conversion gui_env_ok gui_no_files () = (None, [Warning msg_error_title msg_no_files], ())"
proof -
  have h: "gui_proto_files gui_no_files = [] \<or> output_dir_text gui_no_files = []
      \<or> (\<not> java_checked gui_no_files \<and> \<not> python_checked gui_no_files
          \<and> \<not> python_grpc_checked gui_no_files)"
    by (simp add: gui_no_files_def)
  from invalid_job_rejected [OF h, of gui_env_ok "()"] h show ?thesis
    by (simp add: gui_no_files_def)
qed

end
